theory Spec2Isabelle
  imports Main
begin

section \<open>Identifiers, time and small JavaScript idioms\<close>

text \<open>
  A Mongo ObjectId is compared through \<open>toString()\<close> everywhere in the source, so
  only its identity matters: it is a natural number here. A \<open>Date\<close> is its number of
  milliseconds since the epoch.
\<close>

type_synonym oid = nat
type_synonym date = int

text \<open>\<open>x || 0\<close> on a number: a falsy number (0) becomes 0, any other stays.\<close>

definition orZero :: "int \<Rightarrow> int" where
  "orZero x = (if x = 0 then 0 else x)"

text \<open>\<open>x || d\<close> on a number, with a default \<open>d\<close>.\<close>

definition orDefault :: "int \<Rightarrow> int \<Rightarrow> int" where
  "orDefault x d = (if x = 0 then d else x)"

text \<open>\<open>Array.prototype.findIndex\<close>: the first position that satisfies \<open>P\<close>, or none (-1).\<close>

fun findIndex :: "('a \<Rightarrow> bool) \<Rightarrow> 'a list \<Rightarrow> nat option" where
  "findIndex P [] = None"
| "findIndex P (x # xs) =
     (if P x then Some 0 else map_option Suc (findIndex P xs))"

section \<open>Numbers\<close>

text \<open>
  A JavaScript number is an IEEE 754 double. The counters and limits of this program are
  integers, and a sum or a product of two of them is an integer as well; what the
  operation returns is the double nearest to it, the one with the even significand when
  two are equally near, and an infinity when that double would have reached \<open>2 ^ 1024\<close>.
  Every integer up to \<open>2 ^ 53\<close> in magnitude is a double, so the result is exact
  there. The counters of a conversation move in steps of one from zero and are written on
  the integers; the product of \<open>initiatorNeedsToPay\<close>, whose factors are a limit of
  the configuration and the number of paid cycles, is written with the rounding.

  \<open>excess m\<close> is the number of bits by which \<open>m\<close> exceeds the 53 bits of a significand.
\<close>

datatype number = Finite int | PlusInfinity | MinusInfinity | NotANumber

function excess :: "nat \<Rightarrow> nat" where
  "excess m = (if m < 2 ^ 53 then 0 else Suc (excess (m div 2)))"
  by pat_completeness auto

termination
  by (relation "measure (\<lambda>m. m)") auto

declare excess.simps [simp del]

text \<open>Rounding to a multiple of \<open>2 ^ e\<close>, to the nearest, a tie to the even multiple.\<close>

definition roundHalfEven :: "nat \<Rightarrow> nat \<Rightarrow> nat" where
  "roundHalfEven m e =
     (let q = m div 2 ^ e;
          r = m mod 2 ^ e
      in (if 2 * r > 2 ^ e \<or> (2 * r = 2 ^ e \<and> odd q) then q + 1 else q) * 2 ^ e)"

definition toNumber :: "int \<Rightarrow> number" where
  "toNumber x =
     (let m = nat \<bar>x\<bar>;
          v = int (roundHalfEven m (excess m))
      in if v \<ge> 2 ^ 1024 then (if x < 0 then MinusInfinity else PlusInfinity)
         else Finite (if x < 0 then - v else v))"

text \<open>\<open>a + b\<close>, \<open>a * b\<close> and \<open>a >= b\<close> on numbers.\<close>

fun plusNumber :: "number \<Rightarrow> number \<Rightarrow> number" where
  "plusNumber (Finite a) (Finite b) = toNumber (a + b)"
| "plusNumber NotANumber y = NotANumber"
| "plusNumber x NotANumber = NotANumber"
| "plusNumber PlusInfinity MinusInfinity = NotANumber"
| "plusNumber MinusInfinity PlusInfinity = NotANumber"
| "plusNumber PlusInfinity y = PlusInfinity"
| "plusNumber MinusInfinity y = MinusInfinity"
| "plusNumber (Finite a) y = y"

fun negateNumber :: "number \<Rightarrow> number" where
  "negateNumber (Finite a) = Finite (- a)"
| "negateNumber PlusInfinity = MinusInfinity"
| "negateNumber MinusInfinity = PlusInfinity"
| "negateNumber NotANumber = NotANumber"

fun timesNumber :: "number \<Rightarrow> number \<Rightarrow> number" where
  "timesNumber (Finite a) (Finite b) = toNumber (a * b)"
| "timesNumber NotANumber y = NotANumber"
| "timesNumber x NotANumber = NotANumber"
| "timesNumber (Finite a) y = (if a = 0 then NotANumber else if a < 0 then negateNumber y else y)"
| "timesNumber x (Finite b) = (if b = 0 then NotANumber else if b < 0 then negateNumber x else x)"
| "timesNumber PlusInfinity y = y"
| "timesNumber MinusInfinity y = negateNumber y"

fun geNumber :: "number \<Rightarrow> number \<Rightarrow> bool" where
  "geNumber (Finite a) (Finite b) = (a \<ge> b)"
| "geNumber NotANumber y = False"
| "geNumber x NotANumber = False"
| "geNumber PlusInfinity y = True"
| "geNumber x MinusInfinity = True"
| "geNumber x y = False"

section \<open>Conversation model (models/Conversation.js)\<close>

record participant =
  user :: oid
  isRevealed :: bool
  revealedAt :: "date option"
  revealedFields :: "string list"
  isMuted :: bool
  mutedUntil :: "date option"
  isArchived :: bool
  archivedAt :: "date option"
  lastReadAt :: "date option"
  unreadCount :: int

datatype messageType = Text | Image | Reveal | System

record lastMessageInfo =
  lm_content :: string
  lm_senderId :: oid
  lm_sentAt :: date
  lm_type :: messageType

record messagePayment =
  paymentId :: string
  orderId :: string
  paidAt :: date
  amountPaisa :: int

datatype conversationStatus = Active | Blocked | Deleted | Reported

record conversation =
  conv_id :: oid
  participants :: "participant list"
  initiator :: "oid option"
  messageRequest :: oid
  isAnonymous :: bool
  lastMessage :: "lastMessageInfo option"
  messageCount :: int
  initiatorMessageCount :: int
  initiatorPaidCycles :: int
  lastMessagePayment :: "messagePayment option"
  mutualRevealRequested :: bool
  revealRequestedBy :: "oid option"
  revealRequestedAt :: "date option"
  conv_status :: conversationStatus
  blockedBy :: "oid option"
  blockedAt :: "date option"
  deletedBy :: "oid list"

datatype error =
    NotParticipant
  | PackNotActive
  | NotEnoughInPack
  | NotEnoughPurchased
  | CanOnlyCancelPending
  | DuplicateKey

text \<open>\<open>getOtherParticipant\<close>: the first participant whose user differs.\<close>

definition getOtherParticipant :: "conversation \<Rightarrow> oid \<Rightarrow> participant option" where
  "getOtherParticipant c userId = find (\<lambda>p. user p \<noteq> userId) (participants c)"

definition getParticipantData :: "conversation \<Rightarrow> oid \<Rightarrow> participant option" where
  "getParticipantData c userId = find (\<lambda>p. user p = userId) (participants c)"

definition isUserRevealed :: "conversation \<Rightarrow> oid \<Rightarrow> bool" where
  "isUserRevealed c userId =
     (case getParticipantData c userId of Some p \<Rightarrow> isRevealed p | None \<Rightarrow> False)"

text \<open>
  \<open>revealIdentity\<close> (the model method): throws when the user is no participant;
  otherwise marks that participant revealed and clears \<open>isAnonymous\<close> when every
  participant is revealed.
\<close>

definition revealIdentity :: "conversation \<Rightarrow> oid \<Rightarrow> string list \<Rightarrow> date \<Rightarrow> error + conversation" where
  "revealIdentity c userId fieldsToReveal now =
     (case findIndex (\<lambda>p. user p = userId) (participants c) of
        None \<Rightarrow> Inl NotParticipant
      | Some i \<Rightarrow>
          (let ps = (participants c)
                 [i := (participants c ! i)
                    \<lparr>isRevealed := True, revealedAt := Some now,
                     revealedFields := fieldsToReveal\<rparr>];
               allRevealed = list_all isRevealed ps
           in Inr (c\<lparr>participants := ps,
                     isAnonymous := (if allRevealed then False else isAnonymous c)\<rparr>)))"

text \<open>
  \<open>updateLastMessage\<close>: the summary of the last message, the message counter, the
  initiator's counter (only for the initiator while not revealed) and the unread counter
  of every participant other than the sender.
\<close>

definition updateLastMessage :: "conversation \<Rightarrow> string \<Rightarrow> oid \<Rightarrow> messageType \<Rightarrow> date \<Rightarrow> conversation" where
  "updateLastMessage c content senderId type now =
     (let c1 = c\<lparr>lastMessage := Some \<lparr>lm_content = take 100 content, lm_senderId = senderId,
                                       lm_sentAt = now, lm_type = type\<rparr>,
                  messageCount := messageCount c + 1\<rparr>;
          isInitiator = (initiator c1 = Some senderId);
          c2 = (if isInitiator then
                  (let initiatorParticipant = find (\<lambda>p. user p = senderId) (participants c1);
                       initiatorRevealed =
                         (case initiatorParticipant of Some p \<Rightarrow> isRevealed p | None \<Rightarrow> False)
                   in if \<not> initiatorRevealed
                      then c1\<lparr>initiatorMessageCount := orZero (initiatorMessageCount c1) + 1\<rparr>
                      else c1)
                else c1)
      in c2\<lparr>participants :=
               map (\<lambda>p. if user p \<noteq> senderId then p\<lparr>unreadCount := unreadCount p + 1\<rparr> else p)
                   (participants c2)\<rparr>)"

text \<open>
  \<open>initiatorNeedsToPay\<close>: false without an initiator, false once revealed; otherwise
  the count is compared with the product \<open>freeMessageLimit * (paidCycles + 1)\<close> as the
  number arithmetic returns it.
\<close>

definition initiatorNeedsToPay :: "conversation \<Rightarrow> int \<Rightarrow> bool" where
  "initiatorNeedsToPay c freeMessageLimit =
     (case initiator c of
        None \<Rightarrow> False
      | Some initiatorId \<Rightarrow>
          (let initiatorParticipant = find (\<lambda>p. user p = initiatorId) (participants c);
               initiatorRevealed =
                 (case initiatorParticipant of Some p \<Rightarrow> isRevealed p | None \<Rightarrow> False)
           in if initiatorRevealed then False
              else (let paidCycles = orZero (initiatorPaidCycles c);
                        allowedMessages =
                          timesNumber (Finite freeMessageLimit)
                            (plusNumber (Finite paidCycles) (Finite 1));
                        currentCount = orZero (initiatorMessageCount c)
                    in geNumber (Finite currentCount) allowedMessages)))"

text \<open>\<open>recordMessagePayment\<close>: one more paid cycle, and the payment's metadata.\<close>

definition recordMessagePayment :: "conversation \<Rightarrow> string \<Rightarrow> string \<Rightarrow> int \<Rightarrow> date \<Rightarrow> conversation" where
  "recordMessagePayment c pId oId amount now =
     c\<lparr>initiatorPaidCycles := orZero (initiatorPaidCycles c) + 1,
       lastMessagePayment := Some \<lparr>paymentId = pId, orderId = oId, paidAt = now,
                                   amountPaisa = amount\<rparr>\<rparr>"

record initiatorStats =
  st_isRevealed :: bool
  st_needsToPay :: bool
  st_currentCount :: int
  st_limitPerCycle :: int
  st_paidCycles :: int
  st_messagesUntilPayment :: "int option"

text \<open>
  \<open>getInitiatorMessageStats\<close>; \<open>messagesUntilPayment\<close> is \<open>Infinity\<close> (here \<open>None\<close>)
  for a revealed initiator. The result is \<open>null\<close> without an initiator.
\<close>

definition getInitiatorMessageStats :: "conversation \<Rightarrow> int \<Rightarrow> initiatorStats option" where
  "getInitiatorMessageStats c freeMessageLimit =
     (case initiator c of
        None \<Rightarrow> None
      | Some initiatorId \<Rightarrow>
          (let initiatorParticipant = find (\<lambda>p. user p = initiatorId) (participants c);
               initiatorRevealed =
                 (case initiatorParticipant of Some p \<Rightarrow> isRevealed p | None \<Rightarrow> False)
           in if initiatorRevealed
              then Some \<lparr>st_isRevealed = True, st_needsToPay = False, st_currentCount = 0,
                         st_limitPerCycle = freeMessageLimit, st_paidCycles = 0,
                         st_messagesUntilPayment = None\<rparr>
              else (let paidCycles = orZero (initiatorPaidCycles c);
                        currentCount = orZero (initiatorMessageCount c);
                        allowedMessages = freeMessageLimit * (paidCycles + 1);
                        messagesUntilPayment = max 0 (allowedMessages - currentCount)
                    in Some \<lparr>st_isRevealed = False,
                              st_needsToPay = (currentCount \<ge> allowedMessages),
                              st_currentCount = currentCount,
                              st_limitPerCycle = freeMessageLimit, st_paidCycles = paidCycles,
                              st_messagesUntilPayment = Some messagesUntilPayment\<rparr>)))"

text \<open>The per-participant mutations: each changes the caller's own row, if there is one.\<close>

definition conv_markAsRead :: "conversation \<Rightarrow> oid \<Rightarrow> date \<Rightarrow> conversation" where
  "conv_markAsRead c userId now =
     (case findIndex (\<lambda>p. user p = userId) (participants c) of
        None \<Rightarrow> c
      | Some i \<Rightarrow> c\<lparr>participants := (participants c)
                        [i := (participants c ! i)\<lparr>lastReadAt := Some now, unreadCount := 0\<rparr>]\<rparr>)"

definition muteForUser :: "conversation \<Rightarrow> oid \<Rightarrow> int option \<Rightarrow> date \<Rightarrow> conversation" where
  "muteForUser c userId duration now =
     (case findIndex (\<lambda>p. user p = userId) (participants c) of
        None \<Rightarrow> c
      | Some i \<Rightarrow>
          (let p = (participants c ! i)\<lparr>isMuted := True\<rparr>;
               p' = (case duration of
                       None \<Rightarrow> p
                     | Some d \<Rightarrow> if d = 0 then p else p\<lparr>mutedUntil := Some (now + d)\<rparr>)
           in c\<lparr>participants := (participants c)[i := p']\<rparr>))"

definition archiveForUser :: "conversation \<Rightarrow> oid \<Rightarrow> date \<Rightarrow> conversation" where
  "archiveForUser c userId now =
     (case findIndex (\<lambda>p. user p = userId) (participants c) of
        None \<Rightarrow> c
      | Some i \<Rightarrow> c\<lparr>participants := (participants c)
                        [i := (participants c ! i)\<lparr>isArchived := True, archivedAt := Some now\<rparr>]\<rparr>)"

text \<open>\<open>unmuteConversation\<close> and \<open>unarchiveConversation\<close> of the message controller.\<close>

definition unmuteForUser :: "conversation \<Rightarrow> oid \<Rightarrow> conversation" where
  "unmuteForUser c userId =
     (case findIndex (\<lambda>p. user p = userId) (participants c) of
        None \<Rightarrow> c
      | Some i \<Rightarrow> c\<lparr>participants := (participants c)
                        [i := (participants c ! i)\<lparr>isMuted := False, mutedUntil := None\<rparr>]\<rparr>)"

definition unarchiveForUser :: "conversation \<Rightarrow> oid \<Rightarrow> conversation" where
  "unarchiveForUser c userId =
     (case findIndex (\<lambda>p. user p = userId) (participants c) of
        None \<Rightarrow> c
      | Some i \<Rightarrow> c\<lparr>participants := (participants c)
                        [i := (participants c ! i)\<lparr>isArchived := False, archivedAt := None\<rparr>]\<rparr>)"

text \<open>The reveal state of the initiator-side participant, as every method computes it.\<close>

definition initiatorRevealed :: "conversation \<Rightarrow> bool" where
  "initiatorRevealed c =
     (case initiator c of
        None \<Rightarrow> False
      | Some i \<Rightarrow> (case find (\<lambda>p. user p = i) (participants c) of
                     Some p \<Rightarrow> isRevealed p | None \<Rightarrow> False))"

section \<open>Message model (models/Message.js)\<close>

datatype deliveryStatus = Sent | Delivered | Read | Failed

record message =
  msg_id :: oid
  msg_conversation :: oid
  msg_sender :: oid
  msg_recipient :: oid
  msg_content :: string
  msg_type :: messageType
  replyTo :: "oid option"
  isRead :: bool
  readAt :: "date option"
  deliveryStatus :: deliveryStatus
  deliveredAt :: "date option"
  msg_createdAt :: date

text \<open>\<open>String.prototype.trim\<close> on the ASCII white space characters.\<close>

definition isSpace :: "char \<Rightarrow> bool" where
  "isSpace ch = (ch \<in> set [CHR '' '', CHR 0x09, CHR 0x0A, CHR 0x0B, CHR 0x0C, CHR 0x0D])"

definition trim :: "string \<Rightarrow> string" where
  "trim s = rev (dropWhile isSpace (rev (dropWhile isSpace s)))"

text \<open>
  \<open>Message.create\<close>: the schema trims the content, requires it for a text message and
  limits it to 2000 characters; a document that fails validation is not written
  (\<open>None\<close>: the call throws). The new message is \<open>sent\<close> and unread. (On the REST
  routes a validator refuses such a content before the handler runs; the socket events
  have no validator.)
\<close>

definition newMessage :: "oid \<Rightarrow> oid \<Rightarrow> oid \<Rightarrow> oid \<Rightarrow> string \<Rightarrow> messageType \<Rightarrow> oid option \<Rightarrow> date
    \<Rightarrow> message option" where
  "newMessage mid conversationId senderId recipientId content type reply now =
     (let content' = trim content
      in if (type = Text \<and> content' = []) \<or> length content' > 2000 then None
         else Some \<lparr>msg_id = mid, msg_conversation = conversationId, msg_sender = senderId,
                     msg_recipient = recipientId, msg_content = content', msg_type = type,
                     replyTo = reply, isRead = False, readAt = None, deliveryStatus = Sent,
                     deliveredAt = None, msg_createdAt = now\<rparr>)"

definition markAsRead :: "message \<Rightarrow> date \<Rightarrow> message" where
  "markAsRead m now =
     (if \<not> isRead m then m\<lparr>isRead := True, readAt := Some now, deliveryStatus := Read\<rparr>
      else m)"

definition markAsDelivered :: "message \<Rightarrow> date \<Rightarrow> message" where
  "markAsDelivered m now =
     (if deliveryStatus m = Sent then m\<lparr>deliveryStatus := Delivered, deliveredAt := Some now\<rparr>
      else m)"

text \<open>\<open>Message.markAllAsRead\<close>: an \<open>updateMany\<close> over the recipient's unread messages.\<close>

definition markAllAsRead :: "message list \<Rightarrow> oid \<Rightarrow> oid \<Rightarrow> date \<Rightarrow> message list" where
  "markAllAsRead ms conversationId userId now =
     map (\<lambda>m. if msg_conversation m = conversationId \<and> msg_recipient m = userId \<and> \<not> isRead m
               then m\<lparr>isRead := True, readAt := Some now, deliveryStatus := Read\<rparr>
               else m) ms"

text \<open>
  The \<open>updateMany\<close> of the socket handler \<open>mark_read\<close>: its filter is the id list and
  the recipient only.
\<close>

definition mark_read :: "message list \<Rightarrow> oid \<Rightarrow> oid list \<Rightarrow> date \<Rightarrow> message list" where
  "mark_read ms userId messageIds now =
     map (\<lambda>m. if msg_id m \<in> set messageIds \<and> msg_recipient m = userId
               then m\<lparr>isRead := True, readAt := Some now, deliveryStatus := Read\<rparr>
               else m) ms"

text \<open>The \<open>updateMany\<close> of the socket handler \<open>mark_delivered\<close>: only \<open>sent\<close> messages.\<close>

definition mark_delivered :: "message list \<Rightarrow> oid \<Rightarrow> oid list \<Rightarrow> date \<Rightarrow> message list" where
  "mark_delivered ms userId messageIds now =
     map (\<lambda>m. if msg_id m \<in> set messageIds \<and> msg_recipient m = userId \<and> deliveryStatus m = Sent
               then m\<lparr>deliveryStatus := Delivered, deliveredAt := Some now\<rparr>
               else m) ms"

text \<open>The position of a status on the path sent, delivered, read; \<open>failed\<close> is off it.\<close>

fun statusRank :: "deliveryStatus \<Rightarrow> nat option" where
  "statusRank Sent = Some 0"
| "statusRank Delivered = Some 1"
| "statusRank Read = Some 2"
| "statusRank Failed = None"

text \<open>
  A message is below a target status when it is on the path and strictly before the
  target.
\<close>

definition belowStatus :: "message \<Rightarrow> deliveryStatus \<Rightarrow> bool" where
  "belowStatus m target =
     (case (statusRank (deliveryStatus m), statusRank target) of
        (Some a, Some b) \<Rightarrow> a < b
      | _ \<Rightarrow> False)"

section \<open>Purchased packs (models/PurchasedPack.js)\<close>

datatype packStatus = PackActive | PackExhausted | PackExpired | PackRefunded | PackFailed

record purchasedPack =
  pack_id :: oid
  pack_user :: oid
  packId :: string
  requestCount :: int
  requestsUsed :: int
  requestsRemaining :: int
  pricePaid :: int
  pack_status :: packStatus
  pack_expiresAt :: date

text \<open>\<open>useRequests\<close>: throws on a pack that is not active or holds too little.\<close>

definition useRequests :: "purchasedPack \<Rightarrow> int \<Rightarrow> error + purchasedPack" where
  "useRequests p count =
     (if pack_status p \<noteq> PackActive then Inl PackNotActive
      else if requestsRemaining p < count then Inl NotEnoughInPack
      else (let p1 = p\<lparr>requestsUsed := requestsUsed p + count,
                        requestsRemaining := requestsRemaining p - count\<rparr>
            in Inr (if requestsRemaining p1 = 0 then p1\<lparr>pack_status := PackExhausted\<rparr>
                    else p1)))"

text \<open>\<open>getActivePacks\<close>: active, not expired, earliest expiry first.\<close>

definition getActivePacks :: "purchasedPack list \<Rightarrow> oid \<Rightarrow> date \<Rightarrow> purchasedPack list" where
  "getActivePacks ps userId now =
     sort_key pack_expiresAt
       (filter (\<lambda>p. pack_user p = userId \<and> pack_status p = PackActive \<and> pack_expiresAt p > now) ps)"

definition getTotalRemainingRequests :: "purchasedPack list \<Rightarrow> oid \<Rightarrow> date \<Rightarrow> int" where
  "getTotalRemainingRequests ps userId now =
     sum_list (map requestsRemaining
       (filter (\<lambda>p. pack_user p = userId \<and> pack_status p = PackActive \<and> pack_expiresAt p > now) ps))"

text \<open>
  The loop of \<open>useFromPacks\<close> over the packs in order: the exception of a pack, if any,
  the packs as they are after the loop (each saved when used), and what is still to draw.
\<close>

fun useLoop :: "purchasedPack list \<Rightarrow> int \<Rightarrow> error option \<times> purchasedPack list \<times> int" where
  "useLoop [] remaining = (None, [], remaining)"
| "useLoop (p # ps) remaining =
     (if remaining \<le> 0 then (None, p # ps, remaining)
      else (let toUse = min remaining (requestsRemaining p)
            in case useRequests p toUse of
                 Inl e \<Rightarrow> (Some e, p # ps, remaining)
               | Inr p' \<Rightarrow>
                   (case useLoop ps (remaining - toUse) of
                      (e, ps', r) \<Rightarrow> (e, p' # ps', r))))"

text \<open>The saves of the loop on the collection: each used pack replaces its stored one.\<close>

definition savePacks :: "purchasedPack list \<Rightarrow> purchasedPack list \<Rightarrow> purchasedPack list" where
  "savePacks updated ps =
     map (\<lambda>p. case find (\<lambda>q. pack_id q = pack_id p) updated of Some q \<Rightarrow> q | None \<Rightarrow> p) ps"

text \<open>
  \<open>useFromPacks\<close>: the result (\<open>true\<close>, or the exception thrown) and the collection
  after the call.
\<close>

definition useFromPacks :: "purchasedPack list \<Rightarrow> oid \<Rightarrow> int \<Rightarrow> date
    \<Rightarrow> (error + bool) \<times> purchasedPack list" where
  "useFromPacks ps userId count now =
     (case useLoop (getActivePacks ps userId now) count of
        (e, updated, remaining) \<Rightarrow>
          (case e of
             Some err \<Rightarrow> (Inl err, savePacks updated ps)
           | None \<Rightarrow>
               if remaining > 0 then (Inl NotEnoughPurchased, savePacks updated ps)
               else (Inr True, savePacks updated ps)))"

text \<open>A pack drained to nothing, as \<open>useRequests\<close> leaves it.\<close>

definition drained :: "purchasedPack \<Rightarrow> purchasedPack" where
  "drained p = p\<lparr>requestsUsed := requestsUsed p + requestsRemaining p,
                 requestsRemaining := 0, pack_status := PackExhausted\<rparr>"

section \<open>The store and the collaborators\<close>

text \<open>
  The collections the handlers read and write. \<open>nextId\<close> is the source of fresh
  ObjectIds. A block is the pair (blocker, blocked).
\<close>

datatype requestStatus = Pending | Accepted | Rejected | Expired | Cancelled

datatype requestSource = ProfileLink | Search | DiscoveryFeed | QrCode

record messageRequest =
  req_id :: oid
  req_sender :: oid
  req_recipient :: oid
  initialMessage :: string
  req_status :: requestStatus
  req_isAnonymous :: bool
  req_source :: requestSource
  req_conversation :: "oid option"
  expiresAt :: date
  acceptedAt :: "date option"
  rejectedAt :: "date option"
  cancelledAt :: "date option"
  isReadByRecipient :: bool
  req_readAt :: "date option"
  isPriority :: bool
  req_createdAt :: date

record db =
  requests :: "messageRequest list"
  conversations :: "conversation list"
  messages :: "message list"
  blocks :: "(oid \<times> oid) list"
  packs :: "purchasedPack list"
  nextId :: oid

definition emptyDb :: db where
  "emptyDb = \<lparr>requests = [], conversations = [], messages = [], blocks = [], packs = [],
               nextId = 0\<rparr>"

record unrevealedChatPayment =
  ucp_isEnabled :: bool
  freeMessageLimit :: int
  pricePerMessageInPaisa :: int
  priceDisplay :: string

record config =
  dailyFreeRequests :: int
  unrevealedPayment :: "unrevealedChatPayment option"

text \<open>The rupee sign followed by 2, as UTF-8 bytes: the default \<open>priceDisplay\<close>.\<close>

definition defaultPriceDisplay :: string where
  "defaultPriceDisplay = [CHR 0xE2, CHR 0x82, CHR 0xB9, CHR ''2'']"

text \<open>The fallback of \<open>sendMessage\<close> when the configuration has no payment settings.\<close>

definition defaultUnrevealedPayment :: unrevealedChatPayment where
  "defaultUnrevealedPayment =
     \<lparr>ucp_isEnabled = True, freeMessageLimit = 100, pricePerMessageInPaisa = 200,
      priceDisplay = defaultPriceDisplay\<rparr>"

text \<open>
  The payment provider (config/razorpay) is a parameter: the signature check, an HMAC
  of the order and payment ids under the secret of the account, and the lookup of a
  payment at the provider, which may throw (\<open>None\<close>).
\<close>

record paymentDetails =
  pd_status :: string
  pd_amount :: int

record provider =
  verifyPayment :: "string \<Rightarrow> string \<Rightarrow> string \<Rightarrow> bool"
  getPaymentDetails :: "string \<Rightarrow> paymentDetails option"

record paymentRequiredData =
  pr_reason :: string
  pr_priceInPaisa :: int
  pr_priceDisplay :: string
  pr_freeMessageLimit :: int
  pr_currentCount :: int
  pr_paidCycles :: int
  pr_allowedMessages :: int
  pr_conversationId :: oid

text \<open>
  The responses of \<open>ApiResponse\<close>, with the status code in the name and the message
  where the handlers tell cases apart by it.
\<close>

datatype response =
    Success
  | Created
  | PaymentApplied int "int option" int
  | BadRequest string
  | PaymentRequired paymentRequiredData
  | Forbidden string
  | NotFound string
  | Conflict string
  | TooManyRequests int
  | ServerError string

text \<open>\<open>Block.hasBlockBetween\<close>: a block in either direction.\<close>

definition hasBlockBetween :: "db \<Rightarrow> oid \<Rightarrow> oid \<Rightarrow> bool" where
  "hasBlockBetween d userId1 userId2 =
     (find (\<lambda>b. b = (userId1, userId2) \<or> b = (userId2, userId1)) (blocks d) \<noteq> None)"

text \<open>\<open>save()\<close> of a conversation document: the stored document with its id is replaced.\<close>

definition saveConversation :: "conversation \<Rightarrow> db \<Rightarrow> db" where
  "saveConversation c d =
     d\<lparr>conversations := map (\<lambda>x. if conv_id x = conv_id c then c else x) (conversations d)\<rparr>"

definition isParticipant :: "conversation \<Rightarrow> oid \<Rightarrow> bool" where
  "isParticipant c userId = (userId \<in> set (map user (participants c)))"

text \<open>The two lookups the handlers use: any conversation of the user, or an active one.\<close>

definition findConversation :: "db \<Rightarrow> oid \<Rightarrow> oid \<Rightarrow> conversation option" where
  "findConversation d conversationId userId =
     find (\<lambda>c. conv_id c = conversationId \<and> isParticipant c userId) (conversations d)"

definition findActiveConversation :: "db \<Rightarrow> oid \<Rightarrow> oid \<Rightarrow> conversation option" where
  "findActiveConversation d conversationId userId =
     find (\<lambda>c. conv_id c = conversationId \<and> isParticipant c userId \<and> conv_status c = Active)
          (conversations d)"

text \<open>\<open>Message.create\<close> on the store: a fresh id, the message appended.\<close>

definition createMessage :: "db \<Rightarrow> oid \<Rightarrow> oid \<Rightarrow> oid \<Rightarrow> string \<Rightarrow> messageType \<Rightarrow> oid option \<Rightarrow> date
    \<Rightarrow> (message \<times> db) option" where
  "createMessage d conversationId senderId recipientId content type reply now =
     (case newMessage (nextId d) conversationId senderId recipientId content type reply now of
        None \<Rightarrow> None
      | Some m \<Rightarrow> Some (m, d\<lparr>messages := messages d @ [m], nextId := nextId d + 1\<rparr>))"

section \<open>Message controller (controllers/messageController.js) and socket handlers\<close>

text \<open>
  \<open>sendMessage\<close>, the REST send path. Every exception inside the handler ends in the
  500 response of its \<open>catch\<close>; what was written before stays written. The text of the
  402 message is left out of the payload. What follows the two writes (populating the
  message, the push notification, the socket event) reads other stores and writes to
  none of the collections here; it is left out, here and in the other handlers.
\<close>

definition sendMessage :: "config \<Rightarrow> db \<Rightarrow> oid \<Rightarrow> oid \<Rightarrow> string \<Rightarrow> messageType \<Rightarrow> oid option \<Rightarrow> date
    \<Rightarrow> response \<times> db" where
  "sendMessage cfg d userId conversationId content type reply now =
     (case findActiveConversation d conversationId userId of
        None \<Rightarrow> (NotFound ''Conversation not found'', d)
      | Some conversation \<Rightarrow>
     (case getOtherParticipant conversation userId of
        None \<Rightarrow> (ServerError ''Error sending message'', d)
      | Some otherParticipant \<Rightarrow>
     (let recipientId = user otherParticipant in
      if hasBlockBetween d userId recipientId
      then (Forbidden ''Cannot send message to this user'', d)
      else
     (case initiator conversation of
        None \<Rightarrow> (ServerError ''Error sending message'', d)
      | Some initiatorId \<Rightarrow>
     (let isInitiator = (initiatorId = userId);
          initiatorParticipant = getParticipantData conversation initiatorId;
          isInitiatorRevealed =
            (case initiatorParticipant of Some p \<Rightarrow> isRevealed p | None \<Rightarrow> False);
          unrevealed =
            (case unrevealedPayment cfg of Some u \<Rightarrow> u | None \<Rightarrow> defaultUnrevealedPayment);
          limit = orDefault (freeMessageLimit unrevealed) 100;
          currentCount = orZero (initiatorMessageCount conversation);
          paidCycles = orZero (initiatorPaidCycles conversation);
          allowedMessages = limit * (paidCycles + 1)
      in if isInitiator \<and> \<not> isInitiatorRevealed \<and> ucp_isEnabled unrevealed
            \<and> currentCount \<ge> allowedMessages
         then (PaymentRequired
                 \<lparr>pr_reason = ''message_limit_reached'',
                  pr_priceInPaisa = orDefault (pricePerMessageInPaisa unrevealed) 200,
                  pr_priceDisplay = (if priceDisplay unrevealed = [] then defaultPriceDisplay
                                     else priceDisplay unrevealed),
                  pr_freeMessageLimit = limit, pr_currentCount = currentCount,
                  pr_paidCycles = paidCycles, pr_allowedMessages = allowedMessages,
                  pr_conversationId = conversationId\<rparr>, d)
         else
     (case createMessage d conversationId userId recipientId content type reply now of
        None \<Rightarrow> (ServerError ''Error sending message'', d)
      | Some (m, d1) \<Rightarrow>
          (Created,
           saveConversation (updateLastMessage conversation content userId type now) d1)))))))"

text \<open>
  The socket handler \<open>send_message\<close>: the same lookup, the message, the conversation
  update. An exception ends in the \<open>error\<close> event.
\<close>

datatype socketReply = NewMessage oid | SocketError string

definition send_message :: "db \<Rightarrow> oid \<Rightarrow> oid \<Rightarrow> string \<Rightarrow> messageType \<Rightarrow> oid option \<Rightarrow> date
    \<Rightarrow> socketReply \<times> db" where
  "send_message d userId conversationId content type reply now =
     (case findActiveConversation d conversationId userId of
        None \<Rightarrow> (SocketError ''Conversation not found'', d)
      | Some conversation \<Rightarrow>
     (case find (\<lambda>p. user p \<noteq> userId) (participants conversation) of
        None \<Rightarrow> (SocketError ''Failed to send message'', d)
      | Some otherParticipant \<Rightarrow>
     (case createMessage d conversationId userId (user otherParticipant) content type reply now of
        None \<Rightarrow> (SocketError ''Failed to send message'', d)
      | Some (m, d1) \<Rightarrow>
          (NewMessage (msg_id m),
           saveConversation (updateLastMessage conversation content userId type now) d1))))"

text \<open>
  \<open>getMessages\<close> and \<open>getConversation\<close> mark what the reader received as read; the
  socket handlers \<open>mark_read\<close> and \<open>mark_delivered\<close> do so for a batch of message ids.
\<close>

definition getMessages :: "db \<Rightarrow> oid \<Rightarrow> oid \<Rightarrow> date \<Rightarrow> response \<times> db" where
  "getMessages d userId conversationId now =
     (case findConversation d conversationId userId of
        None \<Rightarrow> (NotFound ''Conversation not found'', d)
      | Some conversation \<Rightarrow>
          (Success,
           saveConversation (conv_markAsRead conversation userId now)
             (d\<lparr>messages := markAllAsRead (messages d) conversationId userId now\<rparr>)))"

definition getConversation :: "db \<Rightarrow> oid \<Rightarrow> oid \<Rightarrow> date \<Rightarrow> response \<times> db" where
  "getConversation d userId conversationId now =
     (case findActiveConversation d conversationId userId of
        None \<Rightarrow> (NotFound ''Conversation not found'', d)
      | Some conversation \<Rightarrow>
          (Success, saveConversation (conv_markAsRead conversation userId now) d))"

definition on_mark_read :: "db \<Rightarrow> oid \<Rightarrow> oid \<Rightarrow> oid list \<Rightarrow> date \<Rightarrow> db" where
  "on_mark_read d userId conversationId messageIds now =
     (let d1 = d\<lparr>messages := mark_read (messages d) userId messageIds now\<rparr>
      in case find (\<lambda>c. conv_id c = conversationId) (conversations d1) of
           None \<Rightarrow> d1
         | Some conversation \<Rightarrow> saveConversation (conv_markAsRead conversation userId now) d1)"

definition on_mark_delivered :: "db \<Rightarrow> oid \<Rightarrow> oid list \<Rightarrow> date \<Rightarrow> db" where
  "on_mark_delivered d userId messageIds now =
     d\<lparr>messages := mark_delivered (messages d) userId messageIds now\<rparr>"

definition muteConversation :: "db \<Rightarrow> oid \<Rightarrow> oid \<Rightarrow> int option \<Rightarrow> date \<Rightarrow> response \<times> db" where
  "muteConversation d userId conversationId duration now =
     (case findConversation d conversationId userId of
        None \<Rightarrow> (NotFound ''Conversation not found'', d)
      | Some conversation \<Rightarrow>
          (Success, saveConversation (muteForUser conversation userId duration now) d))"

definition unmuteConversation :: "db \<Rightarrow> oid \<Rightarrow> oid \<Rightarrow> response \<times> db" where
  "unmuteConversation d userId conversationId =
     (case findConversation d conversationId userId of
        None \<Rightarrow> (NotFound ''Conversation not found'', d)
      | Some conversation \<Rightarrow> (Success, saveConversation (unmuteForUser conversation userId) d))"

definition archiveConversation :: "db \<Rightarrow> oid \<Rightarrow> oid \<Rightarrow> date \<Rightarrow> response \<times> db" where
  "archiveConversation d userId conversationId now =
     (case findConversation d conversationId userId of
        None \<Rightarrow> (NotFound ''Conversation not found'', d)
      | Some conversation \<Rightarrow>
          (Success, saveConversation (archiveForUser conversation userId now) d))"

definition unarchiveConversation :: "db \<Rightarrow> oid \<Rightarrow> oid \<Rightarrow> response \<times> db" where
  "unarchiveConversation d userId conversationId =
     (case findConversation d conversationId userId of
        None \<Rightarrow> (NotFound ''Conversation not found'', d)
      | Some conversation \<Rightarrow> (Success, saveConversation (unarchiveForUser conversation userId) d))"

text \<open>
  \<open>requestReveal\<close>: only the non-initiator, and only while the other side is not
  revealed. The request is saved, then the system message is written and summarised.
\<close>

definition requestReveal :: "db \<Rightarrow> oid \<Rightarrow> oid \<Rightarrow> date \<Rightarrow> response \<times> db" where
  "requestReveal d userId conversationId now =
     (case findConversation d conversationId userId of
        None \<Rightarrow> (NotFound ''Conversation not found'', d)
      | Some conversation \<Rightarrow>
     (case initiator conversation of
        None \<Rightarrow> (ServerError ''Error requesting reveal'', d)
      | Some initiatorId \<Rightarrow>
     (if initiatorId = userId
      then (Forbidden ''Only the receiver can request to see identity'', d)
      else
     (case getOtherParticipant conversation userId of
        None \<Rightarrow> (ServerError ''Unable to find other participant'', d)
      | Some otherParticipant \<Rightarrow>
     (if isRevealed otherParticipant
      then (BadRequest ''Identity is already revealed'', d)
      else
     (let conversation1 = conversation\<lparr>revealRequestedBy := Some userId,
                                       revealRequestedAt := Some now,
                                       mutualRevealRequested := True\<rparr>;
          d1 = saveConversation conversation1 d
      in case createMessage d1 conversationId userId initiatorId ''wants to see your identity''
                System None now of
           None \<Rightarrow> (ServerError ''Error requesting reveal'', d1)
         | Some (m, d2) \<Rightarrow>
             (Success,
              saveConversation
                (updateLastMessage conversation1 ''wants to see your identity'' userId System now)
                d2)))))))"

text \<open>
  \<open>revealIdentity\<close> of the controller: only the initiator, once. \<open>profileName\<close> is
  the name on the caller's profile, if any (the profile store is a collaborator).
\<close>

definition revealIdentityHandler :: "db \<Rightarrow> oid \<Rightarrow> oid \<Rightarrow> string list \<Rightarrow> string option \<Rightarrow> date
    \<Rightarrow> response \<times> db" where
  "revealIdentityHandler d userId conversationId fieldsToReveal profileName now =
     (case findConversation d conversationId userId of
        None \<Rightarrow> (NotFound ''Conversation not found'', d)
      | Some conversation \<Rightarrow>
     (case initiator conversation of
        None \<Rightarrow> (ServerError ''Error revealing identity'', d)
      | Some initiatorId \<Rightarrow>
     (if initiatorId \<noteq> userId
      then (Forbidden ''Only the sender can reveal their identity'', d)
      else if isUserRevealed conversation userId
      then (BadRequest ''Identity already revealed'', d)
      else
     (case revealIdentity conversation userId fieldsToReveal now of
        Inl e \<Rightarrow> (ServerError ''Error revealing identity'', d)
      | Inr conversation1 \<Rightarrow>
     (let d1 = saveConversation conversation1 d
      in case getOtherParticipant conversation1 userId of
           None \<Rightarrow> (ServerError ''Error revealing identity'', d1)
         | Some otherParticipant \<Rightarrow>
     (case createMessage d1 conversationId userId (user otherParticipant)
             ((case profileName of None \<Rightarrow> ''User'' | Some n \<Rightarrow> if n = [] then ''User'' else n)
                @ '' revealed their identity'')
             Reveal None now of
        None \<Rightarrow> (ServerError ''Error revealing identity'', d1)
      | Some (m, d2) \<Rightarrow>
          (Success,
           saveConversation
             (updateLastMessage conversation1 ''Identity revealed'' userId Reveal now) d2)))))))"

section \<open>Block controller (controllers/blockController.js): what it does to conversations\<close>

definition blockUser :: "(oid \<Rightarrow> bool) \<Rightarrow> db \<Rightarrow> oid \<Rightarrow> oid \<Rightarrow> date \<Rightarrow> response \<times> db" where
  "blockUser userExists d me userId now =
     (if userId = me then (BadRequest ''You cannot block yourself'', d)
      else if \<not> userExists userId then (NotFound ''User not found'', d)
      else if find (\<lambda>b. b = (me, userId)) (blocks d) \<noteq> None
      then (Conflict ''User is already blocked'', d)
      else
        (let d1 = d\<lparr>blocks := blocks d @ [(me, userId)]\<rparr>
         in case find (\<lambda>c. isParticipant c me \<and> isParticipant c userId \<and> conv_status c = Active)
                      (conversations d1) of
              None \<Rightarrow> (Success, d1)
            | Some conversation \<Rightarrow>
                (Success,
                 saveConversation
                   (conversation\<lparr>conv_status := Blocked, blockedBy := Some me,
                                  blockedAt := Some now\<rparr>) d1)))"

definition unblockUser :: "db \<Rightarrow> oid \<Rightarrow> oid \<Rightarrow> response \<times> db" where
  "unblockUser d me userId =
     (if find (\<lambda>b. b = (me, userId)) (blocks d) = None then (NotFound ''Block not found'', d)
      else (Success, d\<lparr>blocks := remove1 (me, userId) (blocks d)\<rparr>))"

definition panicBlock :: "db \<Rightarrow> oid \<Rightarrow> oid \<Rightarrow> response \<times> db" where
  "panicBlock d me userId =
     (let d1 = (if find (\<lambda>b. b = (me, userId)) (blocks d) = None
                then d\<lparr>blocks := blocks d @ [(me, userId)]\<rparr> else d)
      in case find (\<lambda>c. isParticipant c me \<and> isParticipant c userId) (conversations d1) of
           None \<Rightarrow> (Success, d1)
         | Some conversation \<Rightarrow>
             (Success,
              saveConversation
                (conversation\<lparr>conv_status := Deleted,
                               deletedBy := deletedBy conversation @ [me]\<rparr>) d1))"

section \<open>Message payment (controllers/purchaseController.js)\<close>

text \<open>
  \<open>verifyMessagePayment\<close>: the signature, the state and the amount of the payment are
  checked with the provider, then the payment is recorded on the conversation.
\<close>

definition verifyMessagePayment :: "config \<Rightarrow> provider \<Rightarrow> db \<Rightarrow> oid \<Rightarrow> oid \<Rightarrow> string \<Rightarrow> string \<Rightarrow> string
    \<Rightarrow> date \<Rightarrow> response \<times> db" where
  "verifyMessagePayment cfg pay d userId conversationId oId pId signature now =
     (if oId = [] \<or> pId = [] \<or> signature = [] then (BadRequest ''Missing payment details'', d)
      else
     (case findActiveConversation d conversationId userId of
        None \<Rightarrow> (NotFound ''Conversation not found'', d)
      | Some conversation \<Rightarrow>
     (if initiator conversation \<noteq> Some userId
      then (Forbidden ''Only the initiator can pay for messages'', d)
      else
     (case unrevealedPayment cfg of
        None \<Rightarrow> (BadRequest ''Unrevealed chat payment is not enabled'', d)
      | Some unrevealed \<Rightarrow>
     (if \<not> ucp_isEnabled unrevealed
      then (BadRequest ''Unrevealed chat payment is not enabled'', d)
      else if \<not> verifyPayment pay oId pId signature
      then (BadRequest ''Payment verification failed. Please try again.'', d)
      else
     (case getPaymentDetails pay pId of
        None \<Rightarrow> (ServerError ''Error verifying payment. Please contact support.'', d)
      | Some details \<Rightarrow>
     (if pd_status details \<noteq> ''captured'' \<and> pd_status details \<noteq> ''authorized''
      then (BadRequest ''Payment not successful'', d)
      else if pd_amount details \<noteq> pricePerMessageInPaisa unrevealed
      then (BadRequest ''Payment amount mismatch'', d)
      else
     (let conversation1 =
            recordMessagePayment conversation pId oId (pricePerMessageInPaisa unrevealed) now;
          d1 = saveConversation conversation1 d;
          limit = orDefault (freeMessageLimit unrevealed) 100
      in case getInitiatorMessageStats conversation1 limit of
           None \<Rightarrow> (ServerError ''Error verifying payment. Please contact support.'', d1)
         | Some stats \<Rightarrow>
             (PaymentApplied (st_paidCycles stats) (st_messagesUntilPayment stats) limit,
              d1)))))))))"

section \<open>Message requests (models/MessageRequest.js)\<close>

text \<open>The \<open>pre('save')\<close> hook: a pending request past its expiry is saved as expired.\<close>

definition preSave :: "messageRequest \<Rightarrow> date \<Rightarrow> messageRequest" where
  "preSave r now =
     (if req_status r = Pending \<and> expiresAt r < now then r\<lparr>req_status := Expired\<rparr> else r)"

text \<open>\<open>save()\<close> of a request document: the hook, then the stored document is replaced.\<close>

definition saveRequest :: "messageRequest \<Rightarrow> date \<Rightarrow> db \<Rightarrow> db" where
  "saveRequest r now d =
     d\<lparr>requests := map (\<lambda>x. if req_id x = req_id r then preSave r now else x) (requests d)\<rparr>"

definition accept :: "messageRequest \<Rightarrow> oid \<Rightarrow> date \<Rightarrow> messageRequest" where
  "accept r conversationId now =
     r\<lparr>req_status := Accepted, acceptedAt := Some now, req_conversation := Some conversationId\<rparr>"

definition reject :: "messageRequest \<Rightarrow> date \<Rightarrow> messageRequest" where
  "reject r now = r\<lparr>req_status := Rejected, rejectedAt := Some now\<rparr>"

definition cancel :: "messageRequest \<Rightarrow> date \<Rightarrow> error + messageRequest" where
  "cancel r now =
     (if req_status r \<noteq> Pending then Inl CanOnlyCancelPending
      else Inr (r\<lparr>req_status := Cancelled, cancelledAt := Some now\<rparr>))"

definition isActiveRequest :: "messageRequest \<Rightarrow> bool" where
  "isActiveRequest r = (req_status r = Pending \<or> req_status r = Accepted)"

definition isBetween :: "oid \<Rightarrow> oid \<Rightarrow> messageRequest \<Rightarrow> bool" where
  "isBetween userId1 userId2 r =
     ((req_sender r = userId1 \<and> req_recipient r = userId2)
      \<or> (req_sender r = userId2 \<and> req_recipient r = userId1))"

text \<open>\<open>existsBetweenUsers\<close>: a pending or accepted request in either direction.\<close>

definition existsBetweenUsers :: "messageRequest list \<Rightarrow> oid \<Rightarrow> oid \<Rightarrow> messageRequest option" where
  "existsBetweenUsers rs userId1 userId2 =
     find (\<lambda>r. isBetween userId1 userId2 r \<and> isActiveRequest r) rs"

definition expireOldRequests :: "messageRequest list \<Rightarrow> date \<Rightarrow> messageRequest list" where
  "expireOldRequests rs now =
     map (\<lambda>r. if req_status r = Pending \<and> expiresAt r < now then r\<lparr>req_status := Expired\<rparr>
               else r) rs"

text \<open>
  \<open>new Date().setHours(0, 0, 0, 0)\<close> is midnight of the current day in the time zone of
  the server. ECMAScript defines it through \<open>LocalTZA(t, isUTC)\<close>, the offset of the
  zone in milliseconds (local time minus UTC) in effect at the UTC instant \<open>t\<close> when
  \<open>isUTC\<close> holds, and at the local time \<open>t\<close> otherwise: the time value becomes the
  local time \<open>LocalTime(t) = t + LocalTZA(t, true)\<close>, its time within the day is set to
  zero, and the result goes back through \<open>UTC(t) = t - LocalTZA(t, false)\<close>. The zone
  is a parameter; its offset is constant without daylight saving time and changes twice
  a year with it.
\<close>

type_synonym timeZone = "date \<Rightarrow> bool \<Rightarrow> int"

definition msPerDay :: int where
  "msPerDay = 24 * 60 * 60 * 1000"

definition localTime :: "timeZone \<Rightarrow> date \<Rightarrow> date" where
  "localTime zone t = t + zone t True"

definition utcTime :: "timeZone \<Rightarrow> date \<Rightarrow> date" where
  "utcTime zone t = t - zone t False"

definition startOfDay :: "timeZone \<Rightarrow> date \<Rightarrow> date" where
  "startOfDay zone now = utcTime zone ((localTime zone now div msPerDay) * msPerDay)"

definition countTodayRequestsBySender :: "messageRequest list \<Rightarrow> oid \<Rightarrow> timeZone \<Rightarrow> date \<Rightarrow> int"
  where
  "countTodayRequestsBySender rs userId zone now =
     int (length (filter (\<lambda>r. req_sender r = userId \<and> req_createdAt r \<ge> startOfDay zone now)
                         rs))"

section \<open>Message request controller (controllers/messageRequestController.js)\<close>

text \<open>
  The user and profile stores are collaborators: what the handlers read of them is a
  parameter. A field such as \<open>college.name\<close> is absent (\<open>None\<close>) or a string.
\<close>

record userInfo =
  accountActive :: bool

record messagePreferences =
  restricted :: bool
  sameCollege :: bool
  sameWorkplace :: bool
  sameLocation :: bool

record profile =
  isBanned :: bool
  allowAnonymousMessages :: bool
  msgPrefs :: "messagePreferences option"
  collegeName :: "string option"
  workplaceCompany :: "string option"
  locationCity :: "string option"

record env =
  cfg :: config
  users :: "oid \<Rightarrow> userInfo option"
  profiles :: "oid \<Rightarrow> profile option"
  localTZA :: timeZone
  expiryDays :: int

text \<open>A string field is truthy when present and not empty.\<close>

definition truthy :: "string option \<Rightarrow> bool" where
  "truthy v = (case v of None \<Rightarrow> False | Some s \<Rightarrow> s \<noteq> [])"

text \<open>\<open>toLowerCase\<close> on the ASCII letters.\<close>

definition toLowerCase :: "string \<Rightarrow> string" where
  "toLowerCase s =
     map (\<lambda>ch. let n = (of_char ch :: nat)
               in if 65 \<le> n \<and> n \<le> 90 then char_of (n + 32) else ch) s"

definition sameField :: "bool \<Rightarrow> string option \<Rightarrow> string option \<Rightarrow> bool" where
  "sameField wanted a b =
     (wanted \<and> truthy a \<and> truthy b
      \<and> (case (a, b) of
             (Some x, Some y) \<Rightarrow> toLowerCase x = toLowerCase y
           | _ \<Rightarrow> False))"

fun joinOr :: "string list \<Rightarrow> string" where
  "joinOr [] = []"
| "joinOr [x] = x"
| "joinOr (x # xs) = x @ '' or '' @ joinOr xs"

text \<open>
  The check of the recipient's message preferences: the 403 response of a sender the
  restrictions exclude, or nothing.
\<close>

definition preferencesRejection :: "profile \<Rightarrow> profile option \<Rightarrow> response option" where
  "preferencesRejection recipientProfile senderProfile =
     (case msgPrefs recipientProfile of
        None \<Rightarrow> None
      | Some prefs \<Rightarrow>
          if \<not> restricted prefs then None
          else (case senderProfile of
                  Some sp \<Rightarrow>
                    (let canMessage =
                           (sameField (sameCollege prefs) (collegeName sp) (collegeName recipientProfile)
                            \<or> sameField (sameWorkplace prefs) (workplaceCompany sp)
                                 (workplaceCompany recipientProfile)
                            \<or> sameField (sameLocation prefs) (locationCity sp)
                                 (locationCity recipientProfile));
                         reasons = (if sameCollege prefs then [''same college''] else [])
                                   @ (if sameWorkplace prefs then [''same workplace''] else [])
                                   @ (if sameLocation prefs then [''same location''] else [])
                     in if canMessage then None
                        else Some (Forbidden
                               (if reasons \<noteq> []
                                then ''This user only accepts messages from people with ''
                                       @ joinOr reasons @ ''.''
                                else ''This user has restricted who can message them.'')))
                | None \<Rightarrow>
                    if sameCollege prefs \<or> sameWorkplace prefs \<or> sameLocation prefs
                    then Some (Forbidden ''Please complete your profile to message this user.'')
                    else None))"

text \<open>
  \<open>MessageRequest.create\<close>: the schema trims the initial message, requires it and
  limits it to 500 characters; the unique index on (sender, recipient) refuses a second
  document for the same ordered pair, whatever its status. The request expires
  \<open>expiryDays\<close> days after its creation.
\<close>

definition createRequest :: "db \<Rightarrow> int \<Rightarrow> oid \<Rightarrow> oid \<Rightarrow> string \<Rightarrow> requestSource \<Rightarrow> bool \<Rightarrow> date
    \<Rightarrow> (messageRequest \<times> db) option" where
  "createRequest d days senderId recipientId msg src anonymous now =
     (let msg' = trim msg
      in if msg' = [] \<or> length msg' > 500 then None
         else if find (\<lambda>r. req_sender r = senderId \<and> req_recipient r = recipientId) (requests d)
                   \<noteq> None
         then None
         else (let r = preSave
                         \<lparr>req_id = nextId d, req_sender = senderId, req_recipient = recipientId,
                          initialMessage = msg', req_status = Pending,
                          req_isAnonymous = anonymous, req_source = src,
                          req_conversation = None,
                          expiresAt = now + days * msPerDay,
                          acceptedAt = None, rejectedAt = None, cancelledAt = None,
                          isReadByRecipient = False, req_readAt = None, isPriority = False,
                          req_createdAt = now\<rparr> now
               in Some (r, d\<lparr>requests := requests d @ [r], nextId := nextId d + 1\<rparr>)))"

text \<open>
  \<open>sendRequest\<close>, in the order of its checks: self, recipient, profile, block, an
  active request between the two, the daily limit, anonymity, the message preferences,
  and the creation.
\<close>

definition sendRequest :: "env \<Rightarrow> db \<Rightarrow> oid \<Rightarrow> oid \<Rightarrow> string \<Rightarrow> requestSource \<Rightarrow> bool \<Rightarrow> date
    \<Rightarrow> response \<times> db" where
  "sendRequest e d senderId recipientId msg src anonymous now =
     (if senderId = recipientId then (BadRequest ''Cannot send request to yourself'', d)
      else
     (case users e recipientId of
        None \<Rightarrow> (NotFound ''User not found'', d)
      | Some recipient \<Rightarrow>
     (if \<not> accountActive recipient then (NotFound ''User not found'', d)
      else
     (case profiles e recipientId of
        None \<Rightarrow> (NotFound ''User not found'', d)
      | Some recipientProfile \<Rightarrow>
     (if isBanned recipientProfile then (NotFound ''User not found'', d)
      else if hasBlockBetween d senderId recipientId
      then (Forbidden ''Unable to send request to this user'', d)
      else
     (let existingRequest = existsBetweenUsers (requests d) senderId recipientId;
          dailyFreeLimit = dailyFreeRequests (cfg e);
          todayRequests = countTodayRequestsBySender (requests d) senderId (localTZA e) now
      in if (case existingRequest of Some x \<Rightarrow> req_status x = Pending | None \<Rightarrow> False)
         then (Conflict ''A request already exists with this user'', d)
         else if (case existingRequest of Some x \<Rightarrow> req_status x = Accepted | None \<Rightarrow> False)
         then (Conflict ''You already have a conversation with this user'', d)
         else if todayRequests \<ge> dailyFreeLimit
         then (TooManyRequests dailyFreeLimit, d)
         else if anonymous \<and> \<not> allowAnonymousMessages recipientProfile
         then (Forbidden ''This user does not accept anonymous messages'', d)
         else
     (case preferencesRejection recipientProfile (profiles e senderId) of
        Some rejection \<Rightarrow> (rejection, d)
      | None \<Rightarrow>
     (case createRequest d (expiryDays e) senderId recipientId msg src anonymous now of
        None \<Rightarrow> (ServerError ''Error sending request'', d)
      | Some (r, d1) \<Rightarrow> (Created, d1)))))))))"

text \<open>
  The handler awaits each of its reads and its write, and other handlers run in between:
  a read sees the store as it is at its moment. \<open>sendRequestAwaits\<close> is the handler with
  a store for each access in turn: for \<open>Block.hasBlockBetween\<close>, for
  \<open>existsBetweenUsers\<close>, for \<open>countTodayRequestsBySender\<close> and for
  \<open>MessageRequest.create\<close>. It gives the response and the store that the creation has
  written, if any. \<open>sendRequest\<close> above is the handler with no other in between, the
  four stores being one.
\<close>

definition sendRequestAwaits :: "env \<Rightarrow> db \<Rightarrow> db \<Rightarrow> db \<Rightarrow> db \<Rightarrow> oid \<Rightarrow> oid \<Rightarrow> string
    \<Rightarrow> requestSource \<Rightarrow> bool \<Rightarrow> date \<Rightarrow> response \<times> db option" where
  "sendRequestAwaits e dBlock dExisting dCount dCreate senderId recipientId msg src anonymous now =
     (if senderId = recipientId then (BadRequest ''Cannot send request to yourself'', None)
      else
     (case users e recipientId of
        None \<Rightarrow> (NotFound ''User not found'', None)
      | Some recipient \<Rightarrow>
     (if \<not> accountActive recipient then (NotFound ''User not found'', None)
      else
     (case profiles e recipientId of
        None \<Rightarrow> (NotFound ''User not found'', None)
      | Some recipientProfile \<Rightarrow>
     (if isBanned recipientProfile then (NotFound ''User not found'', None)
      else if hasBlockBetween dBlock senderId recipientId
      then (Forbidden ''Unable to send request to this user'', None)
      else
     (let existingRequest = existsBetweenUsers (requests dExisting) senderId recipientId;
          dailyFreeLimit = dailyFreeRequests (cfg e);
          todayRequests = countTodayRequestsBySender (requests dCount) senderId (localTZA e) now
      in if (case existingRequest of Some x \<Rightarrow> req_status x = Pending | None \<Rightarrow> False)
         then (Conflict ''A request already exists with this user'', None)
         else if (case existingRequest of Some x \<Rightarrow> req_status x = Accepted | None \<Rightarrow> False)
         then (Conflict ''You already have a conversation with this user'', None)
         else if todayRequests \<ge> dailyFreeLimit
         then (TooManyRequests dailyFreeLimit, None)
         else if anonymous \<and> \<not> allowAnonymousMessages recipientProfile
         then (Forbidden ''This user does not accept anonymous messages'', None)
         else
     (case preferencesRejection recipientProfile (profiles e senderId) of
        Some rejection \<Rightarrow> (rejection, None)
      | None \<Rightarrow>
     (case createRequest dCreate (expiryDays e) senderId recipientId msg src anonymous now of
        None \<Rightarrow> (ServerError ''Error sending request'', None)
      | Some (r, d1) \<Rightarrow> (Created, Some d1)))))))))"

text \<open>The first participant rows of a conversation, as \<open>acceptRequest\<close> creates them.\<close>

definition newParticipant :: "oid \<Rightarrow> bool \<Rightarrow> participant" where
  "newParticipant userId revealed =
     \<lparr>user = userId, isRevealed = revealed, revealedAt = None, revealedFields = [],
      isMuted = False, mutedUntil = None, isArchived = False, archivedAt = None,
      lastReadAt = None, unreadCount = 0\<rparr>"

definition newConversation :: "oid \<Rightarrow> messageRequest \<Rightarrow> oid \<Rightarrow> conversation" where
  "newConversation cid request userId =
     \<lparr>conv_id = cid,
      participants = [newParticipant (req_sender request) (\<not> req_isAnonymous request),
                      newParticipant userId True],
      initiator = Some (req_sender request), messageRequest = req_id request,
      isAnonymous = req_isAnonymous request, lastMessage = None, messageCount = 0,
      initiatorMessageCount = 0, initiatorPaidCycles = 0, lastMessagePayment = None,
      mutualRevealRequested = False, revealRequestedBy = None, revealRequestedAt = None,
      conv_status = Active, blockedBy = None, blockedAt = None, deletedBy = []\<rparr>"

text \<open>
  \<open>acceptRequest\<close>: the recipient's pending request; an expired one is saved as
  expired and refused. Otherwise the conversation, its first message, the summary and
  the accepted request are written in that order. \<open>senderExists\<close> is the outcome of
  populating the sender.
\<close>

definition acceptRequest :: "(oid \<Rightarrow> bool) \<Rightarrow> db \<Rightarrow> oid \<Rightarrow> oid \<Rightarrow> date \<Rightarrow> response \<times> db" where
  "acceptRequest senderExists d userId rid now =
     (case find (\<lambda>r. req_id r = rid \<and> req_recipient r = userId \<and> req_status r = Pending)
                (requests d) of
        None \<Rightarrow> (NotFound ''Request not found or already processed'', d)
      | Some request \<Rightarrow>
     (if expiresAt request < now
      then (BadRequest ''Request has expired'',
            saveRequest (request\<lparr>req_status := Expired\<rparr>) now d)
      else if \<not> senderExists (req_sender request)
      then (ServerError ''Error accepting request'', d)
      else
     (let conversation = newConversation (nextId d) request userId;
          d1 = d\<lparr>conversations := conversations d @ [conversation], nextId := nextId d + 1\<rparr>
      in case createMessage d1 (conv_id conversation) (req_sender request) userId
                (initialMessage request) Text None now of
           None \<Rightarrow> (ServerError ''Error accepting request'', d1)
         | Some (m, d2) \<Rightarrow>
             (let d3 = saveConversation
                         (updateLastMessage conversation (initialMessage request)
                            (req_sender request) Text now) d2
              in (Success, saveRequest (accept request (conv_id conversation) now) now d3)))))"

definition rejectRequest :: "db \<Rightarrow> oid \<Rightarrow> oid \<Rightarrow> date \<Rightarrow> response \<times> db" where
  "rejectRequest d userId rid now =
     (case find (\<lambda>r. req_id r = rid \<and> req_recipient r = userId \<and> req_status r = Pending)
                (requests d) of
        None \<Rightarrow> (NotFound ''Request not found or already processed'', d)
      | Some request \<Rightarrow> (Success, saveRequest (reject request now) now d))"

definition cancelRequest :: "db \<Rightarrow> oid \<Rightarrow> oid \<Rightarrow> date \<Rightarrow> response \<times> db" where
  "cancelRequest d userId rid now =
     (case find (\<lambda>r. req_id r = rid \<and> req_sender r = userId \<and> req_status r = Pending)
                (requests d) of
        None \<Rightarrow> (NotFound ''Request not found or cannot be cancelled'', d)
      | Some request \<Rightarrow>
          (case cancel request now of
             Inl err \<Rightarrow> (ServerError ''Error cancelling request'', d)
           | Inr request1 \<Rightarrow> (Success, saveRequest request1 now d)))"

text \<open>\<open>markAsRead\<close> of a request: saved (through the hook) only when it was unread.\<close>

definition markRequestAsRead :: "db \<Rightarrow> oid \<Rightarrow> oid \<Rightarrow> date \<Rightarrow> response \<times> db" where
  "markRequestAsRead d userId rid now =
     (case find (\<lambda>r. req_id r = rid \<and> req_recipient r = userId) (requests d) of
        None \<Rightarrow> (NotFound ''Request not found'', d)
      | Some request \<Rightarrow>
          if \<not> isReadByRecipient request
          then (Success,
                saveRequest (request\<lparr>isReadByRecipient := True, req_readAt := Some now\<rparr>) now d)
          else (Success, d))"

section \<open>The handlers as events on the store\<close>

text \<open>
  Every handler above that writes to the store, with its caller and arguments. What a
  handler reads of its collaborators comes with the event.
\<close>

datatype event =
    EvSendRequest env oid oid string requestSource bool
  | EvAcceptRequest "oid \<Rightarrow> bool" oid oid
  | EvRejectRequest oid oid
  | EvCancelRequest oid oid
  | EvMarkRequestAsRead oid oid
  | EvExpireOldRequests
  | EvSendMessage config oid oid string messageType "oid option"
  | EvSocketSendMessage oid oid string messageType "oid option"
  | EvGetMessages oid oid
  | EvGetConversation oid oid
  | EvSocketMarkRead oid oid "oid list"
  | EvSocketMarkDelivered oid "oid list"
  | EvMute oid oid "int option"
  | EvUnmute oid oid
  | EvArchive oid oid
  | EvUnarchive oid oid
  | EvRequestReveal oid oid
  | EvRevealIdentity oid oid "string list" "string option"
  | EvVerifyMessagePayment config provider oid oid string string string
  | EvBlockUser "oid \<Rightarrow> bool" oid oid
  | EvUnblockUser oid oid
  | EvPanicBlock oid oid

fun step :: "event \<Rightarrow> date \<Rightarrow> db \<Rightarrow> db" where
  "step (EvSendRequest e senderId recipientId msg src anonymous) now d =
     snd (sendRequest e d senderId recipientId msg src anonymous now)"
| "step (EvAcceptRequest senderExists userId rid) now d =
     snd (acceptRequest senderExists d userId rid now)"
| "step (EvRejectRequest userId rid) now d = snd (rejectRequest d userId rid now)"
| "step (EvCancelRequest userId rid) now d = snd (cancelRequest d userId rid now)"
| "step (EvMarkRequestAsRead userId rid) now d = snd (markRequestAsRead d userId rid now)"
| "step EvExpireOldRequests now d = d\<lparr>requests := expireOldRequests (requests d) now\<rparr>"
| "step (EvSendMessage c userId conversationId content type reply) now d =
     snd (sendMessage c d userId conversationId content type reply now)"
| "step (EvSocketSendMessage userId conversationId content type reply) now d =
     snd (send_message d userId conversationId content type reply now)"
| "step (EvGetMessages userId conversationId) now d = snd (getMessages d userId conversationId now)"
| "step (EvGetConversation userId conversationId) now d =
     snd (getConversation d userId conversationId now)"
| "step (EvSocketMarkRead userId conversationId messageIds) now d =
     on_mark_read d userId conversationId messageIds now"
| "step (EvSocketMarkDelivered userId messageIds) now d =
     on_mark_delivered d userId messageIds now"
| "step (EvMute userId conversationId duration) now d =
     snd (muteConversation d userId conversationId duration now)"
| "step (EvUnmute userId conversationId) now d = snd (unmuteConversation d userId conversationId)"
| "step (EvArchive userId conversationId) now d =
     snd (archiveConversation d userId conversationId now)"
| "step (EvUnarchive userId conversationId) now d =
     snd (unarchiveConversation d userId conversationId)"
| "step (EvRequestReveal userId conversationId) now d =
     snd (requestReveal d userId conversationId now)"
| "step (EvRevealIdentity userId conversationId fieldsToReveal profileName) now d =
     snd (revealIdentityHandler d userId conversationId fieldsToReveal profileName now)"
| "step (EvVerifyMessagePayment c pay userId conversationId oId pId signature) now d =
     snd (verifyMessagePayment c pay d userId conversationId oId pId signature now)"
| "step (EvBlockUser userExists me userId) now d = snd (blockUser userExists d me userId now)"
| "step (EvUnblockUser me userId) now d = snd (unblockUser d me userId)"
| "step (EvPanicBlock me userId) now d = snd (panicBlock d me userId)"

text \<open>
  The stores the handlers can produce from the empty one when they run one after the
  other, each to its end before the next begins.
\<close>

inductive reachable :: "db \<Rightarrow> bool" where
  reachable_empty: "reachable emptyDb"
| reachable_step: "reachable d \<Longrightarrow> reachable (step ev now d)"

text \<open>
  The conversation stored under an id, and its initiator counter. A send is counted for
  a conversation when it is a send event (REST or socket) in that conversation that the
  handler accepted and whose sender is the conversation's initiator, not revealed.
\<close>

definition storedConversation :: "db \<Rightarrow> oid \<Rightarrow> conversation option" where
  "storedConversation d k = find (\<lambda>c. conv_id c = k) (conversations d)"

definition counterOf :: "db \<Rightarrow> oid \<Rightarrow> int option" where
  "counterOf d k = map_option initiatorMessageCount (storedConversation d k)"



text \<open>The active requests between two users, in either direction.\<close>

definition activeRequestsBetween :: "db \<Rightarrow> oid \<Rightarrow> oid \<Rightarrow> messageRequest list" where
  "activeRequestsBetween d a b =
     filter (\<lambda>r. isBetween a b r \<and> isActiveRequest r) (requests d)"

text \<open>
  The anonymity flag as derived from the two participants: the conversation has exactly
  two rows and is anonymous unless both are revealed.
\<close>

definition anonymityDerived :: "conversation \<Rightarrow> bool" where
  "anonymityDerived c =
     (case participants c of
        [participantA, participantB] \<Rightarrow>
          isAnonymous c = (\<not> (isRevealed participantA \<and> isRevealed participantB))
      | _ \<Rightarrow> False)"

section \<open>The daily quota as the specification words it\<close>

text \<open>
  The specification's quota is the free allowance of the day and the balance of the
  purchased packs: it is exhausted when the requests of the sender since the start of
  the day have used up the free allowance and no pack holds a request. The specification
  starts the day at UTC midnight.
\<close>

definition utcStartOfDay :: "date \<Rightarrow> date" where
  "utcStartOfDay now = (now div msPerDay) * msPerDay"

definition spec_quotaExhausted :: "date \<Rightarrow> config \<Rightarrow> db \<Rightarrow> oid \<Rightarrow> date \<Rightarrow> bool" where
  "spec_quotaExhausted dayStart c d senderId now =
     (int (length (filter (\<lambda>r. req_sender r = senderId \<and> req_createdAt r \<ge> dayStart)
                          (requests d))) \<ge> dailyFreeRequests c
      \<and> getTotalRemainingRequests (packs d) senderId now \<le> 0)"

section \<open>Auxiliary notions for the proofs\<close>

text \<open>Two conversations agree on the reveal flags of their rows and on the anonymity flag.\<close>

definition sameReveal :: "conversation \<Rightarrow> conversation \<Rightarrow> bool" where
  "sameReveal c c' = (map isRevealed (participants c') = map isRevealed (participants c)
                      \<and> isAnonymous c' = isAnonymous c)"

definition allDerived :: "db \<Rightarrow> bool" where
  "allDerived d = (\<forall>c \<in> set (conversations d). anonymityDerived c)"

text \<open>
  The requests of a store are well formed: their ids are distinct and older than the next
  fresh id, and no two active requests join the same two users.
\<close>

definition requestsWellFormed :: "db \<Rightarrow> bool" where
  "requestsWellFormed d =
     (distinct (map req_id (requests d))
      \<and> (\<forall>r \<in> set (requests d). req_id r < nextId d)
      \<and> (\<forall>a b. length (activeRequestsBetween d a b) \<le> 1))"

text \<open>Conversation ids are distinct and older than the next fresh id.\<close>

definition convsWellFormed :: "db \<Rightarrow> bool" where
  "convsWellFormed d =
     (distinct (map conv_id (conversations d))
      \<and> (\<forall>c \<in> set (conversations d). conv_id c < nextId d))"

text \<open>A handler that leaves the requests alone and does not take ids back.\<close>

definition requestsKept :: "db \<Rightarrow> db \<Rightarrow> bool" where
  "requestsKept d d' = (requests d' = requests d \<and> nextId d \<le> nextId d')"

section \<open>Sample data\<close>

text \<open>
  A conversation between user 1 (the initiator) and user 2, with the given counter, paid
  cycles and reveal state of the initiator.
\<close>

definition sampleConversation :: "int \<Rightarrow> int \<Rightarrow> bool \<Rightarrow> conversation" where
  "sampleConversation count cycles revealed =
     \<lparr>conv_id = 10,
      participants = [newParticipant 1 revealed, newParticipant 2 True],
      initiator = Some 1, messageRequest = 5,
      isAnonymous = (\<not> revealed), lastMessage = None, messageCount = count,
      initiatorMessageCount = count, initiatorPaidCycles = cycles, lastMessagePayment = None,
      mutualRevealRequested = False, revealRequestedBy = None, revealRequestedAt = None,
      conv_status = Active, blockedBy = None, blockedAt = None, deletedBy = []\<rparr>"

definition sampleDb :: "int \<Rightarrow> int \<Rightarrow> db" where
  "sampleDb count cycles =
     \<lparr>requests = [], conversations = [sampleConversation count cycles False], messages = [],
      blocks = [], packs = [], nextId = 20\<rparr>"

definition sampleConfig :: config where
  "sampleConfig = \<lparr>dailyFreeRequests = 1, unrevealedPayment = Some defaultUnrevealedPayment\<rparr>"

text \<open>A provider that accepts every signature and reports every payment captured at 200.\<close>

definition sampleProvider :: provider where
  "sampleProvider =
     \<lparr>verifyPayment = (\<lambda>oId pId signature. True),
      getPaymentDetails = (\<lambda>pId. Some \<lparr>pd_status = ''captured'', pd_amount = 200\<rparr>)\<rparr>"

text \<open>A message to user 2 that was read at time 5.\<close>

definition sampleReadMessage :: message where
  "sampleReadMessage =
     \<lparr>msg_id = 7, msg_conversation = 10, msg_sender = 1, msg_recipient = 2,
      msg_content = ''hi'', msg_type = Text, replyTo = None, isRead = True, readAt = Some 5,
      deliveryStatus = Read, deliveredAt = Some 3, msg_createdAt = 1\<rparr>"

definition sampleProfile :: profile where
  "sampleProfile =
     \<lparr>isBanned = False, allowAnonymousMessages = True, msgPrefs = None, collegeName = None,
      workplaceCompany = None, locationCity = None\<rparr>"

text \<open>A zone that is always \<open>offset\<close> ms ahead of UTC.\<close>

definition fixedOffset :: "int \<Rightarrow> timeZone" where
  "fixedOffset offset = (\<lambda>t isUTC. offset)"

text \<open>
  New York in 2026: five hours behind UTC, and four from 8 March, 07:00 UTC (02:00 local
  time, which becomes 03:00) to 1 November, 06:00 UTC (02:00 local time, which becomes
  01:00). A local time that the change skips or repeats is read with the offset before
  the change.
\<close>

definition newYork2026 :: timeZone where
  "newYork2026 =
     (\<lambda>t isUTC.
        if isUTC then (if 1772953200000 \<le> t \<and> t < 1793512800000 then - 14400000 else - 18000000)
        else (if 1772938800000 \<le> t \<and> t < 1793498400000 then - 14400000 else - 18000000))"

text \<open>Every user is active and has the sample profile; the server is \<open>offset\<close> ms from UTC.\<close>

definition sampleEnv :: "int \<Rightarrow> env" where
  "sampleEnv offset =
     \<lparr>cfg = sampleConfig, users = (\<lambda>u. Some \<lparr>accountActive = True\<rparr>),
      profiles = (\<lambda>u. Some sampleProfile), localTZA = fixedOffset offset, expiryDays = 7\<rparr>"

text \<open>The same on a server in New York.\<close>

definition sampleEnvNewYork :: env where
  "sampleEnvNewYork =
     \<lparr>cfg = sampleConfig, users = (\<lambda>u. Some \<lparr>accountActive = True\<rparr>),
      profiles = (\<lambda>u. Some sampleProfile), localTZA = newYork2026, expiryDays = 7\<rparr>"

definition sampleRequest :: "oid \<Rightarrow> oid \<Rightarrow> oid \<Rightarrow> date \<Rightarrow> date \<Rightarrow> messageRequest" where
  "sampleRequest rid senderId recipientId created expires =
     \<lparr>req_id = rid, req_sender = senderId, req_recipient = recipientId,
      initialMessage = ''hi'', req_status = Pending, req_isAnonymous = True,
      req_source = Search, req_conversation = None, expiresAt = expires,
      acceptedAt = None, rejectedAt = None, cancelledAt = None, isReadByRecipient = False,
      req_readAt = None, isPriority = False, req_createdAt = created\<rparr>"

definition requestDb :: "messageRequest list \<Rightarrow> db" where
  "requestDb rs =
     \<lparr>requests = rs, conversations = [], messages = [], blocks = [], packs = [], nextId = 20\<rparr>"

text \<open>User 1 sends a request to user 2 at time 0, and user 2 accepts it at time 5.\<close>

definition sampleSent :: db where
  "sampleSent = step (EvSendRequest (sampleEnv 0) 1 2 ''hi'' Search True) 0 emptyDb"

definition sampleAccepted :: db where
  "sampleAccepted = step (EvAcceptRequest (\<lambda>u. True) 2 0) 5 sampleSent"

text \<open>
  The store after user 1 has sent a request to user 2 (at time 0) and user 2 one to
  user 1 (at time 1), both pending.
\<close>

definition sampleCrossed :: db where
  "sampleCrossed =
     \<lparr>requests = [sampleRequest 0 1 2 0 604800000, sampleRequest 1 2 1 1 604800001],
      conversations = [], messages = [], blocks = [], packs = [], nextId = 2\<rparr>"

text \<open>An active pack of user 1.\<close>

definition samplePack :: "oid \<Rightarrow> int \<Rightarrow> date \<Rightarrow> purchasedPack" where
  "samplePack pid remaining expires =
     \<lparr>pack_id = pid, pack_user = 1, packId = ''pack_5'', requestCount = 5,
      requestsUsed = 5 - remaining, requestsRemaining = remaining, pricePaid = 4900,
      pack_status = PackActive, pack_expiresAt = expires\<rparr>"

text \<open>
  User 1 has sent one request, to user 3 at 10:00 UTC of day 0, and holds a pack with three
  requests left that expires after thirty days.
\<close>

definition samplePackHolder :: db where
  "samplePackHolder =
     \<lparr>requests = [sampleRequest 0 1 3 36000000 640800000], conversations = [], messages = [],
      blocks = [], packs = [samplePack 30 3 2592000000], nextId = 31\<rparr>"

section \<open>Basic facts\<close>

lemma orZero_id: "orZero x = x"
  by (simp add: orZero_def)

lemma findIndex_Some_find:
  "findIndex P xs = Some i \<Longrightarrow> i < length xs \<and> P (xs ! i) \<and> find P xs = Some (xs ! i)"
  by (induction xs arbitrary: i) (auto split: if_splits)

lemma find_update_first:
  "findIndex P xs = Some i \<Longrightarrow> P y \<Longrightarrow> find P (xs[i := y]) = Some y"
  by (induction xs arbitrary: i) (auto split: if_splits)

lemma find_Some_mem: "find P xs = Some x \<Longrightarrow> x \<in> set xs \<and> P x"
  by (auto simp: find_Some_iff)

lemma find_unique:
  assumes "x \<in> set xs" and "P x" and "\<And>y. y \<in> set xs \<Longrightarrow> P y \<Longrightarrow> y = x"
  shows "find P xs = Some x"
  using assms
proof (induction xs)
  case Nil
  then show ?case by simp
next
  case (Cons a xs)
  show ?case
  proof (cases "P a")
    case True
    then have "a = x" using Cons.prems(3)[of a] by simp
    with True show ?thesis by simp
  next
    case False
    from False Cons.prems(2) have "x \<noteq> a" by blast
    with Cons.prems(1) have "x \<in> set xs" by simp
    moreover have "y = x" if "y \<in> set xs" "P y" for y
      using Cons.prems(3)[of y] that by simp
    ultimately have "find P xs = Some x"
      using Cons.prems(2) by (intro Cons.IH)
    with False show ?thesis by simp
  qed
qed

lemma trim_hi: "trim ''hi'' = ''hi''"
  by (simp add: trim_def isSpace_def)

section \<open>Number arithmetic on integers\<close>

lemma excess_small: "m < 2 ^ 53 \<Longrightarrow> excess m = 0"
  by (simp add: excess.simps)

lemma excess_big: "\<not> m < 2 ^ 53 \<Longrightarrow> excess m = Suc (excess (m div 2))"
  by (subst excess.simps) simp

lemma roundHalfEven_0: "roundHalfEven m 0 = m"
  by (simp add: roundHalfEven_def)

lemma toNumber_of_rounded:
  assumes "int (roundHalfEven (nat \<bar>x\<bar>) (excess (nat \<bar>x\<bar>))) = \<bar>x\<bar>"
    and "\<bar>x\<bar> < 2 ^ 1024"
  shows "toNumber x = Finite x"
proof -
  from assms(2) have nb: "\<not> \<bar>x\<bar> \<ge> 2 ^ 1024" by (simp only: not_le)
  have "toNumber x = Finite (if x < 0 then - \<bar>x\<bar> else \<bar>x\<bar>)"
    unfolding toNumber_def Let_def assms(1) using nb by (simp only: if_False)
  also have "(if x < 0 then - \<bar>x\<bar> else \<bar>x\<bar>) = x" by simp
  finally show ?thesis .
qed

text \<open>An integer of magnitude at most \<open>2 ^ 53\<close> is a double: the arithmetic is exact there.\<close>

lemma toNumber_exact:
  assumes "\<bar>x\<bar> \<le> 2 ^ 53"
  shows "toNumber x = Finite x"
proof -
  have "(2::int) ^ 53 < 2 ^ 1024" by (rule power_strict_increasing) simp_all
  with assms have big: "\<bar>x\<bar> < 2 ^ 1024" by (rule le_less_trans)
  show ?thesis
  proof (cases "\<bar>x\<bar> < 2 ^ 53")
    case True
    then have "nat \<bar>x\<bar> < 2 ^ 53" by (simp add: nat_less_iff)
    then have e: "excess (nat \<bar>x\<bar>) = 0" by (rule excess_small)
    have "int (roundHalfEven (nat \<bar>x\<bar>) (excess (nat \<bar>x\<bar>))) = \<bar>x\<bar>"
      by (simp add: e roundHalfEven_0)
    then show ?thesis using big by (rule toNumber_of_rounded)
  next
    case False
    with assms have a: "\<bar>x\<bar> = 2 ^ 53" by simp
    then have n: "nat \<bar>x\<bar> = 2 ^ 53" by (simp add: nat_eq_iff)
    have e: "excess (2 ^ 53) = Suc 0"
      by (simp add: excess_big excess_small)
    have r: "roundHalfEven (2 ^ 53) (Suc 0) = 2 ^ 53"
      by (simp add: roundHalfEven_def)
    have rr: "roundHalfEven (nat \<bar>x\<bar>) (excess (nat \<bar>x\<bar>)) = 2 ^ 53"
      by (simp only: n e r)
    have "int (roundHalfEven (nat \<bar>x\<bar>) (excess (nat \<bar>x\<bar>))) = \<bar>x\<bar>"
    proof -
      have "int (2 ^ 53) = \<bar>x\<bar>" by (simp add: a)
      then show ?thesis by (simp only: rr)
    qed
    then show ?thesis using big by (rule toNumber_of_rounded)
  qed
qed

text \<open>
  The product of two integers that lies halfway between two doubles goes to the one with
  the even significand: \<open>94906267 * 94906267 = 9007199515875289\<close> becomes
  \<open>9007199515875288\<close>.
\<close>

lemma product_rounded_down:
  "timesNumber (Finite 94906267) (plusNumber (Finite 94906266) (Finite 1))
     = Finite 9007199515875288"
  by (simp add: toNumber_def roundHalfEven_def excess_big excess_small Let_def)

section \<open>The payment-need predicate\<close>

text \<open>
  C3, as the specification states it for all non-negative integers, fails: the product
  \<open>limit * (cycles + 1)\<close> is a product of doubles. With a limit of 94906267 and
  94906266 paid cycles the exact product is 9007199515875289, which is not a double; the
  code compares the count with 9007199515875288 instead. At that count the initiator
  needs to pay for the code, and does not for the reference formula.
\<close>

theorem needsToPay_true_below_exact_product:
  "initiatorNeedsToPay (sampleConversation 9007199515875288 94906266 False) 94906267
   \<and> \<not> (9007199515875288 \<ge> (94906267::int) * (94906266 + 1))
   \<and> initiator (sampleConversation 9007199515875288 94906266 False) = Some 1
   \<and> \<not> initiatorRevealed (sampleConversation 9007199515875288 94906266 False)"
  by (simp add: initiatorNeedsToPay_def sampleConversation_def newParticipant_def
      initiatorRevealed_def orZero_def toNumber_def roundHalfEven_def excess_big excess_small
      Let_def)

text \<open>
  C3, amended. For a conversation with an initiator and all non-negative integers count,
  cycles and limit with \<open>cycles < 2 ^ 53\<close> and \<open>limit * (cycles + 1) \<le> 2 ^ 53\<close> (the
  range in which the arithmetic of the code is exact), \<open>initiatorNeedsToPay\<close> is true
  exactly when the initiator is not revealed and \<open>count \<ge> limit * (cycles + 1)\<close>; and it
  is false whenever the initiator is revealed, whatever the count, the cycles and the
  limit.
\<close>

theorem needsToPay_reference_formula_while_exact:
  assumes "initiator c = Some i"
  shows "(0 \<le> initiatorPaidCycles c \<and> initiatorPaidCycles c < 2 ^ 53
            \<and> 0 \<le> limit \<and> limit * (initiatorPaidCycles c + 1) \<le> 2 ^ 53
          \<longrightarrow> initiatorNeedsToPay c limit =
                (\<not> initiatorRevealed c
                 \<and> initiatorMessageCount c \<ge> limit * (initiatorPaidCycles c + 1)))
         \<and> (initiatorRevealed c \<longrightarrow> \<not> initiatorNeedsToPay c limit)"
proof (intro conjI impI)
  assume b: "0 \<le> initiatorPaidCycles c \<and> initiatorPaidCycles c < 2 ^ 53
               \<and> 0 \<le> limit \<and> limit * (initiatorPaidCycles c + 1) \<le> 2 ^ 53"
  then have "\<bar>initiatorPaidCycles c + 1\<bar> \<le> 2 ^ 53"
    by simp
  then have s: "toNumber (initiatorPaidCycles c + 1) = Finite (initiatorPaidCycles c + 1)"
    by (rule toNumber_exact)
  from b have "0 \<le> limit * (initiatorPaidCycles c + 1)"
    by simp
  with b have "\<bar>limit * (initiatorPaidCycles c + 1)\<bar> \<le> 2 ^ 53"
    by (simp only: abs_of_nonneg)
  then have p: "toNumber (limit * (initiatorPaidCycles c + 1))
                  = Finite (limit * (initiatorPaidCycles c + 1))"
    by (rule toNumber_exact)
  show "initiatorNeedsToPay c limit =
          (\<not> initiatorRevealed c
           \<and> initiatorMessageCount c \<ge> limit * (initiatorPaidCycles c + 1))"
    using assms
    by (simp add: initiatorNeedsToPay_def initiatorRevealed_def Let_def orZero_id s p
        split: option.splits)
next
  assume "initiatorRevealed c"
  with assms show "\<not> initiatorNeedsToPay c limit"
    by (auto simp: initiatorNeedsToPay_def initiatorRevealed_def Let_def split: option.splits)
qed

theorem needsToPay_reference_formula_while_exact_witness:
  "initiator (sampleConversation 100 0 False) = Some 1
   \<and> \<not> initiatorRevealed (sampleConversation 100 0 False)
   \<and> initiatorNeedsToPay (sampleConversation 100 0 False) 100
   \<and> \<not> initiatorNeedsToPay (sampleConversation 99 0 False) 100
   \<and> \<not> initiatorNeedsToPay (sampleConversation 150 1 False) 100
   \<and> initiatorNeedsToPay (sampleConversation 9007199254740992 94906265 False) 94906265
   \<and> initiatorRevealed (sampleConversation 500 0 True)
   \<and> \<not> initiatorNeedsToPay (sampleConversation 500 0 True) 100"
  using needsToPay_reference_formula_while_exact[of "sampleConversation 100 0 False" 1 100]
    needsToPay_reference_formula_while_exact[of "sampleConversation 99 0 False" 1 100]
    needsToPay_reference_formula_while_exact[of "sampleConversation 150 1 False" 1 100]
    needsToPay_reference_formula_while_exact
      [of "sampleConversation 9007199254740992 94906265 False" 1 94906265]
    needsToPay_reference_formula_while_exact[of "sampleConversation 500 0 True" 1 100]
  by (simp add: sampleConversation_def initiatorRevealed_def newParticipant_def)

section \<open>The initiator's message counter\<close>

lemma revealIdentity_count:
  "revealIdentity c u f now = Inr c' \<Longrightarrow> initiatorMessageCount c' = initiatorMessageCount c"
  by (auto simp: revealIdentity_def Let_def split: option.splits)

lemma revealIdentity_revealed:
  assumes "revealIdentity c u f now = Inr c'"
  shows "isUserRevealed c' u \<and> initiator c' = initiator c"
proof -
  from assms obtain i where i: "findIndex (\<lambda>p. user p = u) (participants c) = Some i"
    by (auto simp: revealIdentity_def split: option.splits)
  let ?p = "(participants c ! i)\<lparr>isRevealed := True, revealedAt := Some now, revealedFields := f\<rparr>"
  from i have "user (participants c ! i) = u"
    by (auto dest: findIndex_Some_find)
  then have "find (\<lambda>p. user p = u) ((participants c)[i := ?p]) = Some ?p"
    using i by (intro find_update_first) simp_all
  moreover from assms i have "participants c' = (participants c)[i := ?p]" "initiator c' = initiator c"
    by (auto simp: revealIdentity_def Let_def)
  ultimately show ?thesis
    by (simp add: isUserRevealed_def getParticipantData_def)
qed

lemma initiatorRevealed_isUserRevealed:
  "initiator c = Some s \<Longrightarrow> initiatorRevealed c = isUserRevealed c s"
  by (simp add: initiatorRevealed_def isUserRevealed_def getParticipantData_def)

lemma updateLastMessage_count:
  "initiatorMessageCount (updateLastMessage c content s t now) =
     initiatorMessageCount c + (if initiator c = Some s \<and> \<not> initiatorRevealed c then 1 else 0)"
  by (auto simp: updateLastMessage_def Let_def initiatorRevealed_def orZero_id
      split: option.splits)

text \<open>
  What each method of the conversation model does to the counter: \<open>updateLastMessage\<close>
  adds one exactly for the unrevealed initiator, the others leave it, also a reveal
  followed by the initiator's reveal message.
\<close>

lemma model_methods_counter:
  "initiatorMessageCount (updateLastMessage c content senderId type now) =
     initiatorMessageCount c
       + (if initiator c = Some senderId \<and> \<not> initiatorRevealed c then 1 else 0)
   \<and> initiatorMessageCount (conv_markAsRead c userId now) = initiatorMessageCount c
   \<and> initiatorMessageCount (muteForUser c userId duration now) = initiatorMessageCount c
   \<and> initiatorMessageCount (unmuteForUser c userId) = initiatorMessageCount c
   \<and> initiatorMessageCount (archiveForUser c userId now) = initiatorMessageCount c
   \<and> initiatorMessageCount (unarchiveForUser c userId) = initiatorMessageCount c
   \<and> initiatorMessageCount (recordMessagePayment c pId oId amount now) = initiatorMessageCount c
   \<and> (\<forall>c'. revealIdentity c userId fieldsToReveal now = Inr c' \<longrightarrow>
          initiatorMessageCount c' = initiatorMessageCount c
          \<and> initiatorMessageCount (updateLastMessage c' content userId type now)
              = initiatorMessageCount c)"
proof (intro conjI allI impI)
  show "initiatorMessageCount (updateLastMessage c content senderId type now) =
     initiatorMessageCount c
       + (if initiator c = Some senderId \<and> \<not> initiatorRevealed c then 1 else 0)"
    by (rule updateLastMessage_count)
  show "initiatorMessageCount (conv_markAsRead c userId now) = initiatorMessageCount c"
    by (simp add: conv_markAsRead_def split: option.splits)
  show "initiatorMessageCount (muteForUser c userId duration now) = initiatorMessageCount c"
    by (simp add: muteForUser_def Let_def split: option.splits)
  show "initiatorMessageCount (unmuteForUser c userId) = initiatorMessageCount c"
    by (simp add: unmuteForUser_def split: option.splits)
  show "initiatorMessageCount (archiveForUser c userId now) = initiatorMessageCount c"
    by (simp add: archiveForUser_def split: option.splits)
  show "initiatorMessageCount (unarchiveForUser c userId) = initiatorMessageCount c"
    by (simp add: unarchiveForUser_def split: option.splits)
  show "initiatorMessageCount (recordMessagePayment c pId oId amount now)
          = initiatorMessageCount c"
    by (simp add: recordMessagePayment_def)
next
  fix c' assume r: "revealIdentity c userId fieldsToReveal now = Inr c'"
  then show "initiatorMessageCount c' = initiatorMessageCount c"
    by (rule revealIdentity_count)
  from revealIdentity_revealed[OF r]
  have "initiator c' = Some userId \<longrightarrow> initiatorRevealed c'"
    by (simp add: initiatorRevealed_isUserRevealed)
  then show "initiatorMessageCount (updateLastMessage c' content userId type now)
               = initiatorMessageCount c"
    by (simp add: updateLastMessage_count revealIdentity_count[OF r])
qed

section \<open>The anonymity flag\<close>

lemma anonymityDerived_map:
  "anonymityDerived c = (length (participants c) = 2 \<and>
      isAnonymous c = (\<not> list_all id (map isRevealed (participants c))))"
  by (auto simp: anonymityDerived_def split: list.splits)

lemma sameReveal_derived:
  "sameReveal c c' \<Longrightarrow> anonymityDerived c \<Longrightarrow> anonymityDerived c'"
  unfolding anonymityDerived_map sameReveal_def
  by (metis length_map)

lemma map_isRevealed_update:
  assumes "isRevealed p = isRevealed (ps ! i)"
  shows "map isRevealed (ps[i := p]) = map isRevealed ps"
proof (cases "i < length ps")
  case True
  with assms have "(map isRevealed ps)[i := isRevealed p] = (map isRevealed ps)[i := map isRevealed ps ! i]"
    by simp
  then show ?thesis
    by (simp add: map_update)
next
  case False
  then have "ps[i := p] = ps"
    by (intro list_update_beyond) simp
  then show ?thesis by simp
qed

lemma sameReveal_updateLastMessage: "sameReveal c (updateLastMessage c content s t now)"
  by (simp add: sameReveal_def updateLastMessage_def Let_def comp_def split: option.splits)

lemma sameReveal_markAsRead: "sameReveal c (conv_markAsRead c u now)"
  by (simp add: sameReveal_def conv_markAsRead_def map_isRevealed_update split: option.splits)

lemma sameReveal_mute: "sameReveal c (muteForUser c u dur now)"
  by (simp add: sameReveal_def muteForUser_def Let_def map_isRevealed_update split: option.splits)

lemma sameReveal_unmute: "sameReveal c (unmuteForUser c u)"
  by (simp add: sameReveal_def unmuteForUser_def map_isRevealed_update split: option.splits)

lemma sameReveal_archive: "sameReveal c (archiveForUser c u now)"
  by (simp add: sameReveal_def archiveForUser_def map_isRevealed_update split: option.splits)

lemma sameReveal_unarchive: "sameReveal c (unarchiveForUser c u)"
  by (simp add: sameReveal_def unarchiveForUser_def map_isRevealed_update split: option.splits)

lemma sameReveal_payment: "sameReveal c (recordMessagePayment c p oi a now)"
  by (simp add: sameReveal_def recordMessagePayment_def)

lemma list_all_update_True:
  "\<not> list_all id (bs[i := True]) \<Longrightarrow> \<not> list_all id bs"
  by (induction bs arbitrary: i) (auto split: nat.splits simp: list_update_code)

lemma revealIdentity_derived:
  assumes "revealIdentity c u f now = Inr c'" and "anonymityDerived c"
  shows "anonymityDerived c'"
proof -
  from assms(1) obtain i where i: "findIndex (\<lambda>p. user p = u) (participants c) = Some i"
    by (auto simp: revealIdentity_def split: option.splits)
  let ?p = "(participants c ! i)\<lparr>isRevealed := True, revealedAt := Some now, revealedFields := f\<rparr>"
  let ?ps = "(participants c)[i := ?p]"
  from i have len: "i < length (participants c)"
    by (auto dest: findIndex_Some_find)
  from assms(1) i have c': "participants c' = ?ps"
      "isAnonymous c' = (if list_all isRevealed ?ps then False else isAnonymous c)"
    by (auto simp: revealIdentity_def Let_def)
  have m: "map isRevealed ?ps = (map isRevealed (participants c))[i := True]"
    by (simp add: map_update)
  have la: "list_all isRevealed ?ps = list_all id (map isRevealed ?ps)"
    by (simp add: list_all_iff)
  show ?thesis
  proof (cases "list_all isRevealed ?ps")
    case True
    with c' assms(2) show ?thesis
      by (simp add: anonymityDerived_map la)
  next
    case False
    then have "\<not> list_all id ((map isRevealed (participants c))[i := True])"
      by (simp add: la m)
    then have "\<not> list_all id (map isRevealed (participants c))"
      by (rule list_all_update_True)
    with False c' assms(2) show ?thesis
      by (simp add: anonymityDerived_map la)
  qed
qed

lemma newConversation_derived: "anonymityDerived (newConversation cid r u)"
  by (simp add: anonymityDerived_def newConversation_def newParticipant_def)


lemma allDerived_find:
  "allDerived d \<Longrightarrow> find P (conversations d) = Some c \<Longrightarrow> anonymityDerived c"
  by (auto simp: allDerived_def dest: find_Some_mem)

lemma allDerived_findConversation:
  "allDerived d \<Longrightarrow> findConversation d k u = Some c \<Longrightarrow> anonymityDerived c"
  unfolding findConversation_def by (rule allDerived_find)

lemma allDerived_findActiveConversation:
  "allDerived d \<Longrightarrow> findActiveConversation d k u = Some c \<Longrightarrow> anonymityDerived c"
  unfolding findActiveConversation_def by (rule allDerived_find)

lemma allDerived_save:
  "allDerived d \<Longrightarrow> anonymityDerived c \<Longrightarrow> allDerived (saveConversation c d)"
  by (auto simp: allDerived_def saveConversation_def)

lemma allDerived_cong:
  "conversations d' = conversations d \<Longrightarrow> allDerived d' = allDerived d"
  by (simp add: allDerived_def)

lemma createMessage_conversations:
  "createMessage d k s r content t reply now = Some (m, d') \<Longrightarrow> conversations d' = conversations d"
  by (auto simp: createMessage_def split: option.splits)

lemma createMessage_allDerived:
  "createMessage d k s r content t reply now = Some (m, d') \<Longrightarrow> allDerived d \<Longrightarrow> allDerived d'"
  by (simp add: allDerived_cong[OF createMessage_conversations])

lemma saveRequest_conversations [simp]: "conversations (saveRequest r now d) = conversations d"
  by (simp add: saveRequest_def)

lemma derived_updateLastMessage:
  "anonymityDerived c \<Longrightarrow> anonymityDerived (updateLastMessage c content s t now)"
  by (rule sameReveal_derived[OF sameReveal_updateLastMessage])

lemma derived_fields:
  "anonymityDerived c \<Longrightarrow> anonymityDerived (c\<lparr>revealRequestedBy := a, revealRequestedAt := b,
      mutualRevealRequested := e\<rparr>)"
  "anonymityDerived c \<Longrightarrow> anonymityDerived (c\<lparr>conv_status := st, blockedBy := bb, blockedAt := ba\<rparr>)"
  "anonymityDerived c \<Longrightarrow> anonymityDerived (c\<lparr>conv_status := st, deletedBy := dl\<rparr>)"
  by (simp_all add: anonymityDerived_map)

lemma sendMessage_allDerived:
  "allDerived d \<Longrightarrow> allDerived (snd (sendMessage cf d u k content t reply now))"
  unfolding sendMessage_def Let_def
  by (auto split: option.splits
      intro!: allDerived_save derived_updateLastMessage
      dest: createMessage_allDerived allDerived_findActiveConversation)

lemma send_message_allDerived:
  "allDerived d \<Longrightarrow> allDerived (snd (send_message d u k content t reply now))"
  unfolding send_message_def Let_def
  by (auto split: option.splits
      intro!: allDerived_save derived_updateLastMessage
      dest: createMessage_allDerived allDerived_findActiveConversation)

lemmas derived_methods =
  sameReveal_derived[OF sameReveal_markAsRead] sameReveal_derived[OF sameReveal_mute]
  sameReveal_derived[OF sameReveal_unmute] sameReveal_derived[OF sameReveal_archive]
  sameReveal_derived[OF sameReveal_unarchive] sameReveal_derived[OF sameReveal_payment]
  derived_updateLastMessage

lemma allDerived_other_fields [simp]:
  "allDerived (d\<lparr>messages := ms\<rparr>) = allDerived d"
  "allDerived (d\<lparr>blocks := bs\<rparr>) = allDerived d"
  "allDerived (d\<lparr>requests := rs\<rparr>) = allDerived d"
  "allDerived (d\<lparr>nextId := n\<rparr>) = allDerived d"
  "allDerived (saveRequest r now d) = allDerived d"
  by (simp_all add: allDerived_def)

lemma getMessages_allDerived:
  "allDerived d \<Longrightarrow> allDerived (snd (getMessages d u k now))"
  unfolding getMessages_def
  by (auto split: option.splits
      intro!: allDerived_save derived_methods dest: allDerived_findConversation)

lemma getConversation_allDerived:
  "allDerived d \<Longrightarrow> allDerived (snd (getConversation d u k now))"
  unfolding getConversation_def
  by (auto split: option.splits intro!: allDerived_save derived_methods
      dest: allDerived_findActiveConversation)

lemma on_mark_read_allDerived:
  "allDerived d \<Longrightarrow> allDerived (on_mark_read d u k ids now)"
  unfolding on_mark_read_def Let_def
  by (auto split: option.splits
      intro!: allDerived_save derived_methods dest: allDerived_find)

lemma on_mark_delivered_allDerived:
  "allDerived d \<Longrightarrow> allDerived (on_mark_delivered d u ids now)"
  by (simp add: on_mark_delivered_def)

lemma mute_allDerived:
  "allDerived d \<Longrightarrow> allDerived (snd (muteConversation d u k dur now))"
  "allDerived d \<Longrightarrow> allDerived (snd (unmuteConversation d u k))"
  "allDerived d \<Longrightarrow> allDerived (snd (archiveConversation d u k now))"
  "allDerived d \<Longrightarrow> allDerived (snd (unarchiveConversation d u k))"
  unfolding muteConversation_def unmuteConversation_def archiveConversation_def
    unarchiveConversation_def
  by (auto split: option.splits intro!: allDerived_save derived_methods
      dest: allDerived_findConversation)

lemma requestReveal_allDerived:
  "allDerived d \<Longrightarrow> allDerived (snd (requestReveal d u k now))"
  unfolding requestReveal_def Let_def
  by (auto split: option.splits
      intro!: allDerived_save derived_methods derived_fields
      dest: allDerived_findConversation createMessage_allDerived)

lemma revealIdentityHandler_allDerived:
  "allDerived d \<Longrightarrow> allDerived (snd (revealIdentityHandler d u k f pn now))"
  unfolding revealIdentityHandler_def Let_def
  by (auto split: option.splits sum.splits
      intro!: allDerived_save derived_methods
      dest: allDerived_findConversation createMessage_allDerived revealIdentity_derived)

lemma verifyMessagePayment_allDerived:
  "allDerived d \<Longrightarrow> allDerived (snd (verifyMessagePayment cf pay d u k oi pi sg now))"
  unfolding verifyMessagePayment_def Let_def
  by (auto split: option.splits
      intro!: allDerived_save derived_methods
      dest: allDerived_findActiveConversation)

lemma block_allDerived:
  "allDerived d \<Longrightarrow> allDerived (snd (blockUser ue d me u now))"
  "allDerived d \<Longrightarrow> allDerived (snd (unblockUser d me u))"
  "allDerived d \<Longrightarrow> allDerived (snd (panicBlock d me u))"
  unfolding blockUser_def unblockUser_def panicBlock_def Let_def
  by (auto split: option.splits
      intro!: allDerived_save derived_fields dest: allDerived_find)

lemma request_handlers_allDerived:
  "allDerived d \<Longrightarrow> allDerived (snd (sendRequest e d s r msg src an now))"
  "allDerived d \<Longrightarrow> allDerived (snd (rejectRequest d u rid now))"
  "allDerived d \<Longrightarrow> allDerived (snd (cancelRequest d u rid now))"
  "allDerived d \<Longrightarrow> allDerived (snd (markRequestAsRead d u rid now))"
  unfolding sendRequest_def rejectRequest_def cancelRequest_def markRequestAsRead_def Let_def
    createRequest_def
  by (auto split: option.splits sum.splits)

lemma allDerived_append:
  "allDerived d \<Longrightarrow> anonymityDerived c \<Longrightarrow>
   allDerived (d\<lparr>conversations := conversations d @ [c], nextId := n\<rparr>)"
  by (auto simp: allDerived_def)

lemma acceptRequest_allDerived:
  assumes "allDerived d"
  shows "allDerived (snd (acceptRequest se d u rid now))"
proof (cases "find (\<lambda>r. req_id r = rid \<and> req_recipient r = u \<and> req_status r = Pending) (requests d)")
  case None
  with assms show ?thesis by (simp add: acceptRequest_def)
next
  case (Some request)
  let ?c = "newConversation (nextId d) request u"
  let ?d1 = "d\<lparr>conversations := conversations d @ [?c], nextId := nextId d + 1\<rparr>"
  have d1: "allDerived ?d1"
    using assms by (intro allDerived_append newConversation_derived)
  show ?thesis
  proof (cases "createMessage ?d1 (conv_id ?c) (req_sender request) u (initialMessage request) Text None now")
    case None
    with Some assms d1 show ?thesis
      by (simp add: acceptRequest_def Let_def)
  next
    case (Some md)
    obtain m d2 where md: "md = (m, d2)" by (cases md)
    with Some d1 have "allDerived d2"
      by (auto dest: createMessage_allDerived)
    then have "allDerived (saveConversation
                 (updateLastMessage ?c (initialMessage request) (req_sender request) Text now) d2)"
      by (intro allDerived_save derived_updateLastMessage newConversation_derived)
    with Some md \<open>find _ _ = Some request\<close> assms show ?thesis
      by (simp add: acceptRequest_def Let_def)
  qed
qed

lemma step_allDerived:
  assumes "allDerived d"
  shows "allDerived (step ev now d)"
proof (cases ev)
  case (EvSendRequest e s r msg src an)
  with assms show ?thesis by (simp add: request_handlers_allDerived(1))
next
  case (EvAcceptRequest se u rid)
  with assms show ?thesis by (simp add: acceptRequest_allDerived)
next
  case (EvRejectRequest u rid)
  with assms show ?thesis by (simp add: request_handlers_allDerived(2))
next
  case (EvCancelRequest u rid)
  with assms show ?thesis by (simp add: request_handlers_allDerived(3))
next
  case (EvMarkRequestAsRead u rid)
  with assms show ?thesis by (simp add: request_handlers_allDerived(4))
next
  case EvExpireOldRequests
  with assms show ?thesis by simp
next
  case (EvSendMessage c u k content t reply)
  with assms show ?thesis by (simp add: sendMessage_allDerived)
next
  case (EvSocketSendMessage u k content t reply)
  with assms show ?thesis by (simp add: send_message_allDerived)
next
  case (EvGetMessages u k)
  with assms show ?thesis by (simp add: getMessages_allDerived)
next
  case (EvGetConversation u k)
  with assms show ?thesis by (simp add: getConversation_allDerived)
next
  case (EvSocketMarkRead u k ids)
  with assms show ?thesis by (simp add: on_mark_read_allDerived)
next
  case (EvSocketMarkDelivered u ids)
  with assms show ?thesis by (simp add: on_mark_delivered_allDerived)
next
  case (EvMute u k dur)
  with assms show ?thesis by (simp add: mute_allDerived(1))
next
  case (EvUnmute u k)
  with assms show ?thesis by (simp add: mute_allDerived(2))
next
  case (EvArchive u k)
  with assms show ?thesis by (simp add: mute_allDerived(3))
next
  case (EvUnarchive u k)
  with assms show ?thesis by (simp add: mute_allDerived(4))
next
  case (EvRequestReveal u k)
  with assms show ?thesis by (simp add: requestReveal_allDerived)
next
  case (EvRevealIdentity u k f pn)
  with assms show ?thesis by (simp add: revealIdentityHandler_allDerived)
next
  case (EvVerifyMessagePayment c pay u k oi pi sg)
  with assms show ?thesis by (simp add: verifyMessagePayment_allDerived)
next
  case (EvBlockUser ue me u)
  with assms show ?thesis by (simp add: block_allDerived(1))
next
  case (EvUnblockUser me u)
  with assms show ?thesis by (simp add: block_allDerived(2))
next
  case (EvPanicBlock me u)
  with assms show ?thesis by (simp add: block_allDerived(3))
qed

lemma reachable_allDerived: "reachable d \<Longrightarrow> allDerived d"
proof (induction rule: reachable.induct)
  case reachable_empty
  show ?case by (simp add: allDerived_def emptyDb_def)
next
  case (reachable_step d ev now)
  then show ?case by (simp add: step_allDerived)
qed

lemma sample_sendRequest:
  "sendRequest (sampleEnv 0) emptyDb 1 2 ''hi'' Search True 0
     = (Created, \<lparr>requests = [sampleRequest 0 1 2 0 604800000], conversations = [],
                  messages = [], blocks = [], packs = [], nextId = 1\<rparr>)"
  by (simp add: sendRequest_def sampleEnv_def sampleProfile_def sampleConfig_def emptyDb_def
      hasBlockBetween_def existsBetweenUsers_def countTodayRequestsBySender_def
      preferencesRejection_def createRequest_def trim_hi preSave_def msPerDay_def
      sampleRequest_def Let_def)

lemma sampleSent_eq:
  "sampleSent = \<lparr>requests = [sampleRequest 0 1 2 0 604800000], conversations = [],
                  messages = [], blocks = [], packs = [], nextId = 1\<rparr>"
  unfolding sampleSent_def step.simps sample_sendRequest by simp

lemma sampleAccepted_state:
  "map conv_id (conversations sampleAccepted) = [1]
   \<and> map isAnonymous (conversations sampleAccepted) = [True]
   \<and> concat (map (map isRevealed \<circ> participants) (conversations sampleAccepted))
       = [False, True]
   \<and> map initiatorMessageCount (conversations sampleAccepted) = [1]
   \<and> map req_status (requests sampleAccepted) = [Accepted]"
  unfolding sampleAccepted_def step.simps sampleSent_eq
  by (simp add: acceptRequest_def sampleRequest_def
      newConversation_def newParticipant_def createMessage_def newMessage_def trim_hi
      updateLastMessage_def saveConversation_def saveRequest_def accept_def preSave_def
      orZero_def Let_def)

lemma reachable_samples: "reachable sampleSent" "reachable sampleAccepted"
  unfolding sampleAccepted_def sampleSent_def by (intro reachable.intros)+

text \<open>
  C8. In every store the handlers can produce, each conversation has exactly two
  participant rows and its flag satisfies
  \<open>isAnonymous = \<not> (participantA.isRevealed \<and> participantB.isRevealed)\<close>: the flag is
  right at creation by \<open>acceptRequest\<close> and after every later mutation (send, reveal,
  reveal request, read, mute, archive, payment, block).
\<close>

theorem anonymity_flag_is_derived:
  "reachable d \<Longrightarrow> c \<in> set (conversations d) \<Longrightarrow> anonymityDerived c"
  using reachable_allDerived[of d] unfolding allDerived_def by blast

theorem anonymity_flag_is_derived_witness:
  "reachable sampleAccepted \<and> length (conversations sampleAccepted) = 1
   \<and> list_all anonymityDerived (conversations sampleAccepted)"
proof -
  have r: "reachable sampleAccepted"
    by (rule reachable_samples)
  from sampleAccepted_state
  have "length (map conv_id (conversations sampleAccepted)) = length [1::nat]"
    by (simp only:)
  then have l: "length (conversations sampleAccepted) = 1"
    by simp
  have a: "list_all anonymityDerived (conversations sampleAccepted)"
    unfolding list_all_iff using anonymity_flag_is_derived[OF r] by blast
  from r l a show ?thesis by (intro conjI)
qed

section \<open>The requests of a reachable store\<close>

lemma requestsKept_wellFormed:
  "requestsKept d d' \<Longrightarrow> requestsWellFormed d \<Longrightarrow> requestsWellFormed d'"
  by (fastforce simp: requestsKept_def requestsWellFormed_def activeRequestsBetween_def)

lemma requestsKept_refl [simp]: "requestsKept d d"
  by (simp add: requestsKept_def)

lemma requestsKept_save [simp]:
  "requestsKept d (saveConversation c d') = requestsKept d d'"
  by (simp add: requestsKept_def saveConversation_def)

lemma requestsKept_fields [simp]:
  "requestsKept d (d'\<lparr>messages := ms\<rparr>) = requestsKept d d'"
  "requestsKept d (d'\<lparr>blocks := bs\<rparr>) = requestsKept d d'"
  by (simp_all add: requestsKept_def)

lemma requestsKept_createMessage:
  "createMessage d1 k s r content t reply now = Some (m, d2) \<Longrightarrow> requestsKept d d1 \<Longrightarrow>
   requestsKept d d2"
  by (auto simp: createMessage_def requestsKept_def split: option.splits)

lemma sendMessage_requestsKept: "requestsKept d (snd (sendMessage cf d u k content t reply now))"
  unfolding sendMessage_def Let_def
  by (auto split: option.splits elim!: requestsKept_createMessage)

lemma send_message_requestsKept: "requestsKept d (snd (send_message d u k content t reply now))"
  unfolding send_message_def Let_def
  by (auto split: option.splits elim!: requestsKept_createMessage)

lemma read_requestsKept:
  "requestsKept d (snd (getMessages d u k now))"
  "requestsKept d (snd (getConversation d u k now))"
  "requestsKept d (on_mark_read d u k ids now)"
  "requestsKept d (on_mark_delivered d u ids now)"
  unfolding getMessages_def getConversation_def on_mark_read_def on_mark_delivered_def Let_def
  by (auto split: option.splits)

lemma mute_requestsKept:
  "requestsKept d (snd (muteConversation d u k dur now))"
  "requestsKept d (snd (unmuteConversation d u k))"
  "requestsKept d (snd (archiveConversation d u k now))"
  "requestsKept d (snd (unarchiveConversation d u k))"
  unfolding muteConversation_def unmuteConversation_def archiveConversation_def
    unarchiveConversation_def
  by (auto split: option.splits)

lemma requestReveal_requestsKept: "requestsKept d (snd (requestReveal d u k now))"
  unfolding requestReveal_def Let_def
  by (auto split: option.splits elim!: requestsKept_createMessage)

lemma revealIdentityHandler_requestsKept:
  "requestsKept d (snd (revealIdentityHandler d u k f pn now))"
  unfolding revealIdentityHandler_def Let_def
  by (auto split: option.splits sum.splits elim!: requestsKept_createMessage)

lemma verifyMessagePayment_requestsKept:
  "requestsKept d (snd (verifyMessagePayment cf pay d u k oi pi sg now))"
  unfolding verifyMessagePayment_def Let_def
  by (auto split: option.splits)

lemma block_requestsKept:
  "requestsKept d (snd (blockUser ue d me u now))"
  "requestsKept d (snd (unblockUser d me u))"
  "requestsKept d (snd (panicBlock d me u))"
  unfolding blockUser_def unblockUser_def panicBlock_def Let_def
  by (auto split: option.splits)

lemma filter_map_length_le:
  "(\<And>y. y \<in> set xs \<Longrightarrow> Q (f y) \<Longrightarrow> Q y) \<Longrightarrow>
   length (filter Q (map f xs)) \<le> length (filter Q xs)"
  by (induction xs) auto

lemma preSave_fields [simp]:
  "req_id (preSave r now) = req_id r"
  "req_sender (preSave r now) = req_sender r"
  "req_recipient (preSave r now) = req_recipient r"
  by (simp_all add: preSave_def)

lemma preSave_active: "isActiveRequest (preSave r now) \<Longrightarrow> isActiveRequest r"
  by (auto simp: preSave_def isActiveRequest_def split: if_splits)

lemma distinct_ids_eq:
  "distinct (map req_id xs) \<Longrightarrow> x \<in> set xs \<Longrightarrow> y \<in> set xs \<Longrightarrow> req_id y = req_id x \<Longrightarrow> y = x"
  by (meson distinct_map inj_onD)

lemma saveRequest_wellFormed:
  assumes wf: "requestsWellFormed d"
    and x: "x \<in> set (requests d)"
    and same: "req_id r = req_id x" "req_sender r = req_sender x" "req_recipient r = req_recipient x"
    and act: "isActiveRequest r \<Longrightarrow> isActiveRequest x"
  shows "requestsWellFormed (saveRequest r now d)"
proof -
  let ?f = "\<lambda>y. if req_id y = req_id r then preSave r now else y"
  have ids: "map req_id (map ?f (requests d)) = map req_id (requests d)"
    by (induction "requests d") (auto simp: comp_def)
  have ids': "req_id ` set (map ?f (requests d)) = req_id ` set (requests d)"
    using ids by (metis set_map)
  have one: "length (filter (\<lambda>r. isBetween a b r \<and> isActiveRequest r) (map ?f (requests d))) \<le> 1" for a b
  proof -
    have "length (filter (\<lambda>r. isBetween a b r \<and> isActiveRequest r) (map ?f (requests d)))
          \<le> length (filter (\<lambda>r. isBetween a b r \<and> isActiveRequest r) (requests d))"
    proof (rule filter_map_length_le)
      fix y assume y: "y \<in> set (requests d)"
        and q: "isBetween a b (?f y) \<and> isActiveRequest (?f y)"
      show "isBetween a b y \<and> isActiveRequest y"
      proof (cases "req_id y = req_id r")
        case True
        with wf x y same have "y = x"
          by (auto simp: requestsWellFormed_def intro: distinct_ids_eq)
        with True q same act show ?thesis
          by (auto simp: isBetween_def dest: preSave_active)
      next
        case False
        with q show ?thesis by simp
      qed
    qed
    also have "\<dots> \<le> 1"
      using wf by (simp add: requestsWellFormed_def activeRequestsBetween_def)
    finally show ?thesis .
  qed
  have bound: "\<forall>r \<in> set (map ?f (requests d)). req_id r < nextId d"
  proof
    fix z assume "z \<in> set (map ?f (requests d))"
    then have "req_id z \<in> req_id ` set (requests d)"
      using ids' by blast
    with wf show "req_id z < nextId d"
      by (auto simp: requestsWellFormed_def)
  qed
  have dist: "distinct (map req_id (map ?f (requests d)))"
    unfolding ids using wf by (simp add: requestsWellFormed_def)
  have eq: "requests (saveRequest r now d) = map ?f (requests d)"
    "nextId (saveRequest r now d) = nextId d"
    by (simp_all add: saveRequest_def)
  show ?thesis
    unfolding requestsWellFormed_def activeRequestsBetween_def eq
    using dist one bound by blast
qed

lemma expireOldRequests_wellFormed:
  assumes wf: "requestsWellFormed d"
  shows "requestsWellFormed (d\<lparr>requests := expireOldRequests (requests d) now\<rparr>)"
proof -
  let ?f = "\<lambda>r. if req_status r = Pending \<and> expiresAt r < now then r\<lparr>req_status := Expired\<rparr> else r"
  have ids: "map req_id (map ?f (requests d)) = map req_id (requests d)"
    by (induction "requests d") (auto simp: comp_def)
  have "length (filter (\<lambda>r. isBetween a b r \<and> isActiveRequest r) (map ?f (requests d)))
          \<le> length (filter (\<lambda>r. isBetween a b r \<and> isActiveRequest r) (requests d))" for a b
    by (rule filter_map_length_le) (auto simp: isBetween_def isActiveRequest_def split: if_splits)
  moreover have "length (filter (\<lambda>r. isBetween a b r \<and> isActiveRequest r) (requests d)) \<le> 1" for a b
    using wf by (simp add: requestsWellFormed_def activeRequestsBetween_def)
  ultimately have one: "length (filter (\<lambda>r. isBetween a b r \<and> isActiveRequest r) (map ?f (requests d))) \<le> 1" for a b
    using order_trans by blast
  have bound: "\<forall>r \<in> set (map ?f (requests d)). req_id r < nextId d"
    using wf by (auto simp: requestsWellFormed_def)
  have dist: "distinct (map req_id (map ?f (requests d)))"
    unfolding ids using wf by (simp add: requestsWellFormed_def)
  have eq: "requests (d\<lparr>requests := expireOldRequests (requests d) now\<rparr>) = map ?f (requests d)"
    "nextId (d\<lparr>requests := expireOldRequests (requests d) now\<rparr>) = nextId d"
    by (simp_all add: expireOldRequests_def)
  show ?thesis
    unfolding requestsWellFormed_def activeRequestsBetween_def eq
    using dist one bound by blast
qed

lemma isBetween_sym: "isBetween a b r = isBetween b a r"
  by (auto simp: isBetween_def)

lemma existsBetweenUsers_None:
  assumes "existsBetweenUsers rs s t = None" and "isBetween a b r" and "isBetween s t r"
  shows "filter (\<lambda>r. isBetween a b r \<and> isActiveRequest r) rs = []"
proof -
  from assms(2,3) have "isBetween a b = isBetween s t"
    by (auto simp: isBetween_def fun_eq_iff)
  with assms(1) show ?thesis
    by (auto simp: existsBetweenUsers_def find_None_iff filter_empty_conv)
qed

lemma existsBetweenUsers_active:
  "existsBetweenUsers rs s t = Some x \<Longrightarrow> req_status x = Pending \<or> req_status x = Accepted"
  by (auto simp: existsBetweenUsers_def isActiveRequest_def dest: find_Some_mem)

lemma createRequest_wellFormed:
  assumes wf: "requestsWellFormed d"
    and none: "existsBetweenUsers (requests d) s t = None"
    and cr: "createRequest d days s t msg src an now = Some (r, d1)"
  shows "requestsWellFormed d1"
proof -
  from cr have r: "req_id r = nextId d" "req_sender r = s" "req_recipient r = t"
    and d1: "requests d1 = requests d @ [r]" "nextId d1 = nextId d + 1"
    by (auto simp: createRequest_def Let_def split: if_splits)
  have fresh: "req_id r \<notin> req_id ` set (requests d)"
    using wf r by (auto simp: requestsWellFormed_def)
  have one: "length (filter (\<lambda>r. isBetween a b r \<and> isActiveRequest r) (requests d @ [r])) \<le> 1" for a b
  proof (cases "isBetween a b r")
    case True
    have "isBetween s t r" using r by (simp add: isBetween_def)
    with none True have "filter (\<lambda>r. isBetween a b r \<and> isActiveRequest r) (requests d) = []"
      by (rule existsBetweenUsers_None)
    then show ?thesis by simp
  next
    case False
    with wf show ?thesis
      by (simp add: requestsWellFormed_def activeRequestsBetween_def)
  qed
  from wf fresh one r d1 show ?thesis
    unfolding requestsWellFormed_def activeRequestsBetween_def
    by (auto simp: less_Suc_eq)
qed

lemma sendRequest_wellFormed:
  assumes wf: "requestsWellFormed d"
  shows "requestsWellFormed (snd (sendRequest e d s t msg src an now))"
proof (cases "existsBetweenUsers (requests d) s t")
  case None
  with wf show ?thesis
    unfolding sendRequest_def Let_def
    by (auto split: option.splits dest: createRequest_wellFormed)
next
  case (Some x)
  with wf existsBetweenUsers_active[OF Some] show ?thesis
    unfolding sendRequest_def Let_def
    by (auto split: option.splits)
qed

lemma acceptRequest_wellFormed:
  assumes wf: "requestsWellFormed d"
  shows "requestsWellFormed (snd (acceptRequest se d u rid now))"
proof (cases "find (\<lambda>r. req_id r = rid \<and> req_recipient r = u \<and> req_status r = Pending) (requests d)")
  case None
  with wf show ?thesis by (simp add: acceptRequest_def)
next
  case (Some request)
  then have mem: "request \<in> set (requests d)" and pend: "req_status request = Pending"
    by (auto dest: find_Some_mem)
  have expired: "requestsWellFormed (saveRequest (request\<lparr>req_status := Expired\<rparr>) now d)"
    using wf mem by (rule saveRequest_wellFormed) (simp_all add: isActiveRequest_def)
  let ?c = "newConversation (nextId d) request u"
  let ?d1 = "d\<lparr>conversations := conversations d @ [?c], nextId := nextId d + 1\<rparr>"
  have k1: "requestsKept d ?d1"
    by (simp add: requestsKept_def)
  show ?thesis
  proof (cases "createMessage ?d1 (conv_id ?c) (req_sender request) u (initialMessage request) Text None now")
    case None
    with Some wf expired k1 show ?thesis
      by (auto simp: acceptRequest_def Let_def dest: requestsKept_wellFormed)
  next
    case (Some md)
    obtain m d2 where md: "md = (m, d2)" by (cases md)
    let ?d3 = "saveConversation
                 (updateLastMessage ?c (initialMessage request) (req_sender request) Text now) d2"
    from Some md k1 have k3: "requestsKept d ?d3"
      by (auto dest: requestsKept_createMessage)
    then have wf3: "requestsWellFormed ?d3"
      using wf by (rule requestsKept_wellFormed)
    from k3 mem have mem3: "request \<in> set (requests ?d3)"
      by (simp add: requestsKept_def)
    have "requestsWellFormed (saveRequest (accept request (conv_id ?c) now) now ?d3)"
      using wf3 mem3 by (rule saveRequest_wellFormed) (simp_all add: accept_def isActiveRequest_def pend)
    with Some md \<open>find _ _ = Some request\<close> expired wf show ?thesis
      by (simp add: acceptRequest_def Let_def)
  qed
qed

lemma rejectRequest_wellFormed:
  assumes wf: "requestsWellFormed d"
  shows "requestsWellFormed (snd (rejectRequest d u rid now))"
proof (cases "find (\<lambda>r. req_id r = rid \<and> req_recipient r = u \<and> req_status r = Pending) (requests d)")
  case None
  with wf show ?thesis by (simp add: rejectRequest_def)
next
  case (Some request)
  then have mem: "request \<in> set (requests d)"
    by (auto dest: find_Some_mem)
  have "requestsWellFormed (saveRequest (reject request now) now d)"
    using wf mem by (rule saveRequest_wellFormed) (simp_all add: reject_def isActiveRequest_def)
  with Some show ?thesis by (simp add: rejectRequest_def)
qed

lemma cancelRequest_wellFormed:
  assumes wf: "requestsWellFormed d"
  shows "requestsWellFormed (snd (cancelRequest d u rid now))"
proof (cases "find (\<lambda>r. req_id r = rid \<and> req_sender r = u \<and> req_status r = Pending) (requests d)")
  case None
  with wf show ?thesis by (simp add: cancelRequest_def)
next
  case (Some request)
  then have mem: "request \<in> set (requests d)" and pend: "req_status request = Pending"
    by (auto dest: find_Some_mem)
  have "requestsWellFormed (saveRequest (request\<lparr>req_status := Cancelled, cancelledAt := Some now\<rparr>) now d)"
    using wf mem by (rule saveRequest_wellFormed) (simp_all add: isActiveRequest_def)
  with Some pend show ?thesis by (simp add: cancelRequest_def cancel_def)
qed

lemma markRequestAsRead_wellFormed:
  assumes wf: "requestsWellFormed d"
  shows "requestsWellFormed (snd (markRequestAsRead d u rid now))"
proof (cases "find (\<lambda>r. req_id r = rid \<and> req_recipient r = u) (requests d)")
  case None
  with wf show ?thesis by (simp add: markRequestAsRead_def)
next
  case (Some request)
  then have mem: "request \<in> set (requests d)"
    by (auto dest: find_Some_mem)
  have "requestsWellFormed (saveRequest (request\<lparr>isReadByRecipient := True, req_readAt := Some now\<rparr>) now d)"
    using wf mem by (rule saveRequest_wellFormed) (simp_all add: isActiveRequest_def)
  with Some wf show ?thesis by (simp add: markRequestAsRead_def)
qed

lemma step_wellFormed: "requestsWellFormed d \<Longrightarrow> requestsWellFormed (step ev now d)"
proof (cases ev)
  case EvExpireOldRequests
  assume "requestsWellFormed d"
  with EvExpireOldRequests show ?thesis by (simp add: expireOldRequests_wellFormed)
qed (simp_all add: sendRequest_wellFormed acceptRequest_wellFormed rejectRequest_wellFormed
      cancelRequest_wellFormed markRequestAsRead_wellFormed
      requestsKept_wellFormed[OF sendMessage_requestsKept]
      requestsKept_wellFormed[OF send_message_requestsKept]
      requestsKept_wellFormed[OF read_requestsKept(1)]
      requestsKept_wellFormed[OF read_requestsKept(2)]
      requestsKept_wellFormed[OF read_requestsKept(3)]
      requestsKept_wellFormed[OF read_requestsKept(4)]
      requestsKept_wellFormed[OF mute_requestsKept(1)]
      requestsKept_wellFormed[OF mute_requestsKept(2)]
      requestsKept_wellFormed[OF mute_requestsKept(3)]
      requestsKept_wellFormed[OF mute_requestsKept(4)]
      requestsKept_wellFormed[OF requestReveal_requestsKept]
      requestsKept_wellFormed[OF revealIdentityHandler_requestsKept]
      requestsKept_wellFormed[OF verifyMessagePayment_requestsKept]
      requestsKept_wellFormed[OF block_requestsKept(1)]
      requestsKept_wellFormed[OF block_requestsKept(2)]
      requestsKept_wellFormed[OF block_requestsKept(3)])

lemma reachable_wellFormed: "reachable d \<Longrightarrow> requestsWellFormed d"
proof (induction rule: reachable.induct)
  case reachable_empty
  show ?case
    by (simp add: requestsWellFormed_def emptyDb_def activeRequestsBetween_def)
next
  case (reachable_step d ev now)
  then show ?case by (simp add: step_wellFormed)
qed

lemma find_map_replace:
  assumes "distinct (map req_id xs)" "x \<in> set xs" "req_id x' = req_id x"
  shows "find (\<lambda>y. req_id y = req_id x) (map (\<lambda>y. if req_id y = req_id x then x' else y) xs) = Some x'"
  using assms by (induction xs) (auto simp: image_iff)


lemma activeRequestsBetween_nonempty:
  "activeRequestsBetween d a b \<noteq> [] \<Longrightarrow> \<exists>x. existsBetweenUsers (requests d) a b = Some x"
  by (cases "existsBetweenUsers (requests d) a b")
    (auto simp: activeRequestsBetween_def existsBetweenUsers_def find_None_iff filter_empty_conv)

lemma sendRequest_existing:
  assumes "existsBetweenUsers (requests d) a b = Some x"
  shows "snd (sendRequest e d a b msg src anonymous now) = d
         \<and> fst (sendRequest e d a b msg src anonymous now) \<noteq> Created
         \<and> (a \<noteq> b \<and> (\<exists>u. users e b = Some u \<and> accountActive u)
              \<and> (\<exists>p. profiles e b = Some p \<and> \<not> isBanned p) \<and> \<not> hasBlockBetween d a b
            \<longrightarrow> (\<exists>m. fst (sendRequest e d a b msg src anonymous now) = Conflict m))"
  using assms existsBetweenUsers_active[OF assms]
  unfolding sendRequest_def Let_def
  by (auto split: option.splits)

section \<open>One active request for two users\<close>

text \<open>
  As long as the handlers run one after the other, each to its end before the next
  begins, there is at most one request between two users, in either direction, whose
  status is pending or accepted. When there is one, \<open>sendRequest\<close> between the two
  creates nothing and leaves the store as it is, and its answer is the 409 conflict
  whenever the checks that come first (not oneself, an active recipient with a profile
  that is not banned, no block) let the call through.
\<close>

lemma one_active_request_without_overlap:
  assumes "reachable d"
  shows "length (activeRequestsBetween d a b) \<le> 1
         \<and> (activeRequestsBetween d a b \<noteq> [] \<longrightarrow>
              snd (sendRequest e d a b msg src anonymous now) = d
              \<and> fst (sendRequest e d a b msg src anonymous now) \<noteq> Created
              \<and> (a \<noteq> b \<and> (\<exists>u. users e b = Some u \<and> accountActive u)
                   \<and> (\<exists>p. profiles e b = Some p \<and> \<not> isBanned p)
                   \<and> \<not> hasBlockBetween d a b
                 \<longrightarrow> (\<exists>m. fst (sendRequest e d a b msg src anonymous now) = Conflict m)))"
proof -
  from reachable_wellFormed[OF assms] have "length (activeRequestsBetween d a b) \<le> 1"
    by (simp add: requestsWellFormed_def)
  moreover have "snd (sendRequest e d a b msg src anonymous now) = d
              \<and> fst (sendRequest e d a b msg src anonymous now) \<noteq> Created
              \<and> (a \<noteq> b \<and> (\<exists>u. users e b = Some u \<and> accountActive u)
                   \<and> (\<exists>p. profiles e b = Some p \<and> \<not> isBanned p)
                   \<and> \<not> hasBlockBetween d a b
                 \<longrightarrow> (\<exists>m. fst (sendRequest e d a b msg src anonymous now) = Conflict m))"
    if "activeRequestsBetween d a b \<noteq> []"
  proof -
    from activeRequestsBetween_nonempty[OF that]
    obtain x where "existsBetweenUsers (requests d) a b = Some x" ..
    then show ?thesis by (rule sendRequest_existing)
  qed
  ultimately show ?thesis by blast
qed

lemma one_active_request_without_overlap_samples:
  "reachable sampleSent
   \<and> length (activeRequestsBetween sampleSent 2 1) = 1
   \<and> sendRequest (sampleEnv 0) sampleSent 2 1 ''hello'' Search True 9
       = (Conflict ''A request already exists with this user'', sampleSent)
   \<and> reachable sampleAccepted
   \<and> length (activeRequestsBetween sampleAccepted 1 2) \<le> 1"
proof -
  have a: "length (activeRequestsBetween sampleSent 2 1) = 1"
    by (simp add: sampleSent_eq activeRequestsBetween_def sampleRequest_def isBetween_def
        isActiveRequest_def)
  then have ne: "activeRequestsBetween sampleSent 2 1 \<noteq> []"
    by auto
  have g: "(2::nat) \<noteq> 1 \<and> (\<exists>u. users (sampleEnv 0) 1 = Some u \<and> accountActive u)
           \<and> (\<exists>p. profiles (sampleEnv 0) 1 = Some p \<and> \<not> isBanned p)
           \<and> \<not> hasBlockBetween sampleSent 2 1"
    by (simp add: sampleEnv_def sampleProfile_def sampleSent_eq hasBlockBetween_def)
  from one_active_request_without_overlap
         [OF reachable_samples(1), of 2 1 "sampleEnv 0" "''hello''" Search True 9] ne g
  obtain m where m: "fst (sendRequest (sampleEnv 0) sampleSent 2 1 ''hello'' Search True 9)
                       = Conflict m"
    and s: "snd (sendRequest (sampleEnv 0) sampleSent 2 1 ''hello'' Search True 9) = sampleSent"
    by blast
  have "fst (sendRequest (sampleEnv 0) sampleSent 2 1 ''hello'' Search True 9)
          = Conflict ''A request already exists with this user''"
    by (simp add: sendRequest_def sampleEnv_def sampleProfile_def sampleSent_eq
        hasBlockBetween_def existsBetweenUsers_def isBetween_def isActiveRequest_def
        sampleRequest_def Let_def)
  with s have c: "sendRequest (sampleEnv 0) sampleSent 2 1 ''hello'' Search True 9
                    = (Conflict ''A request already exists with this user'', sampleSent)"
    by (simp add: prod_eq_iff)
  from one_active_request_without_overlap
         [OF reachable_samples(2), of 1 2 "sampleEnv 0" "''hello''" Search True 9]
  have b: "length (activeRequestsBetween sampleAccepted 1 2) \<le> 1"
    by blast
  from a c b reachable_samples show ?thesis
    by (intro conjI)
qed

text \<open>\<open>sendRequest\<close> is \<open>sendRequestAwaits\<close> on one store.\<close>

lemma sendRequest_without_overlap:
  "sendRequest e d senderId recipientId msg src anonymous now =
     (case sendRequestAwaits e d d d d senderId recipientId msg src anonymous now of
        (response, None) \<Rightarrow> (response, d)
      | (response, Some d1) \<Rightarrow> (response, d1))"
  by (simp add: sendRequest_def sendRequestAwaits_def Let_def split: option.splits)

text \<open>
  C6 on the code: two users send each other a request at the same time. The handler of
  user 1 and the handler of user 2 both look for a block and for an active request
  between the two while the store is still empty, and both find none; then the first
  creates its request, and the second creates its own next to it: the unique index is on
  the ordered pair (sender, recipient) and lets the request of the opposite direction in.
  The store then holds two pending requests between the two users. (A second request in
  the same direction, created in the same way, is refused by the index.)
\<close>

theorem crossing_requests_both_created:
  "sendRequestAwaits (sampleEnv 0) emptyDb emptyDb emptyDb emptyDb 1 2 ''hi'' Search True 0
     = (Created, Some sampleSent)
   \<and> sendRequestAwaits (sampleEnv 0) emptyDb emptyDb emptyDb sampleSent 2 1 ''hi'' Search True 1
       = (Created, Some sampleCrossed)
   \<and> activeRequestsBetween sampleCrossed 1 2
       = [sampleRequest 0 1 2 0 604800000, sampleRequest 1 2 1 1 604800001]
   \<and> length (activeRequestsBetween sampleCrossed 1 2) = 2
   \<and> sendRequestAwaits (sampleEnv 0) emptyDb emptyDb emptyDb sampleSent 1 2 ''hi'' Search True 1
       = (ServerError ''Error sending request'', None)"
  unfolding sampleSent_eq
  by (simp add: sendRequestAwaits_def sampleEnv_def sampleProfile_def sampleConfig_def
      emptyDb_def sampleCrossed_def sampleRequest_def hasBlockBetween_def
      existsBetweenUsers_def isBetween_def isActiveRequest_def activeRequestsBetween_def
      countTodayRequestsBySender_def preferencesRejection_def createRequest_def trim_hi
      preSave_def msPerDay_def Let_def)

section \<open>Accepting an expired request\<close>

text \<open>
  C5. A pending request whose \<open>expiresAt\<close> is in the past cannot be accepted: the
  recipient's accept call answers that the request has expired, creates no conversation
  and no message, and leaves the request with status \<open>expired\<close>; from then on every
  accept call on it, by anyone at any time, finds no request to accept. (The accept call
  of anyone but the recipient finds no request either.) The ids of the stored requests
  are distinct, as the store guarantees.
\<close>

theorem expired_request_cannot_be_accepted:
  assumes ids: "distinct (map req_id (requests d))"
    and mem: "r \<in> set (requests d)"
    and pending: "req_status r = Pending"
    and past: "expiresAt r < now"
  shows "(let result = acceptRequest senderExists d (req_recipient r) (req_id r) now;
              d' = snd result
          in fst result = BadRequest ''Request has expired''
             \<and> conversations d' = conversations d \<and> messages d' = messages d
             \<and> find (\<lambda>x. req_id x = req_id r) (requests d') = Some (r\<lparr>req_status := Expired\<rparr>)
             \<and> (\<forall>se u t. acceptRequest se d' u (req_id r) t
                   = (NotFound ''Request not found or already processed'', d'))
             \<and> (\<forall>u. u \<noteq> req_recipient r \<longrightarrow>
                   acceptRequest senderExists d u (req_id r) now
                     = (NotFound ''Request not found or already processed'', d)))"
proof -
  define d' where "d' = snd (acceptRequest senderExists d (req_recipient r) (req_id r) now)"

  let ?P = "\<lambda>u x. req_id x = req_id r \<and> req_recipient x = u \<and> req_status x = Pending"
  have uniq: "y = r" if "y \<in> set (requests d)" "req_id y = req_id r" for y
    by (rule distinct_ids_eq[OF ids mem that])
  have found: "find (?P (req_recipient r)) (requests d) = Some r"
  proof (rule find_unique)
    show "r \<in> set (requests d)" by (rule mem)
    show "?P (req_recipient r) r" using pending by simp
    show "y = r" if "y \<in> set (requests d)" "?P (req_recipient r) y" for y
      using that by (simp add: uniq)
  qed
  let ?e = "r\<lparr>req_status := Expired\<rparr>"
  have res: "acceptRequest senderExists d (req_recipient r) (req_id r) now
               = (BadRequest ''Request has expired'', saveRequest ?e now d)"
    using found past by (simp add: acceptRequest_def)
  have d'eq: "d' = saveRequest ?e now d"
    using res by (simp add: d'_def)
  have pre: "preSave ?e now = ?e"
    by (simp add: preSave_def)
  have reqs: "requests d' = map (\<lambda>y. if req_id y = req_id r then ?e else y) (requests d)"
    by (simp add: d'eq saveRequest_def pre)
  have f: "find (\<lambda>x. req_id x = req_id r) (requests d') = Some ?e"
    unfolding reqs using ids mem by (intro find_map_replace) simp_all
  have nopending: "find (?P u) (requests d') = None" for u
  proof -
    have "\<not> ?P u y" if "y \<in> set (requests d')" for y
    proof (cases "req_id y = req_id r")
      case True
      with that have "y = ?e" unfolding reqs using uniq by auto
      then show ?thesis by simp
    next
      case False
      then show ?thesis by simp
    qed
    then show ?thesis unfolding find_None_iff by blast
  qed
  have later: "acceptRequest se d' u (req_id r) t
                 = (NotFound ''Request not found or already processed'', d')" for se u t
    using nopending[of u] by (simp add: acceptRequest_def)
  have other: "acceptRequest senderExists d u (req_id r) now
                 = (NotFound ''Request not found or already processed'', d)" if "u \<noteq> req_recipient r" for u
  proof -
    have "\<not> ?P u y" if "y \<in> set (requests d)" for y
      using uniq[OF that] \<open>u \<noteq> req_recipient r\<close> by auto
    then have "find (?P u) (requests d) = None"
      unfolding find_None_iff by blast
    then show ?thesis by (simp add: acceptRequest_def)
  qed
  have c: "conversations d' = conversations d" "messages d' = messages d"
    by (simp_all add: d'eq saveRequest_def)
  have "fst (acceptRequest senderExists d (req_recipient r) (req_id r) now)
          = BadRequest ''Request has expired''"
    using res by simp
  with f later other c show ?thesis
    unfolding Let_def d'_def[symmetric] by (intro conjI allI impI) simp_all
qed

theorem expired_request_cannot_be_accepted_witness:
  "acceptRequest (\<lambda>u. True) (requestDb [sampleRequest 0 1 2 0 50]) 2 0 100
     = (BadRequest ''Request has expired'',
        requestDb [(sampleRequest 0 1 2 0 50)\<lparr>req_status := Expired\<rparr>])
   \<and> fst (acceptRequest (\<lambda>u. True)
            (requestDb [(sampleRequest 0 1 2 0 50)\<lparr>req_status := Expired\<rparr>]) 2 0 101)
       = NotFound ''Request not found or already processed''"
proof -
  let ?r = "sampleRequest 0 1 2 0 50"
  let ?d = "requestDb [?r]"
  have h1: "distinct (map req_id (requests ?d))"
    by (simp add: requestDb_def)
  have h2: "?r \<in> set (requests ?d)"
    by (simp add: requestDb_def)
  have h3: "req_status ?r = Pending"
    by (simp add: sampleRequest_def)
  have h4: "expiresAt ?r < 100"
    by (simp add: sampleRequest_def)
  have r: "req_recipient ?r = 2" "req_id ?r = 0"
    by (simp_all add: sampleRequest_def)
  have s: "snd (acceptRequest (\<lambda>u. True) ?d 2 0 100) = requestDb [?r\<lparr>req_status := Expired\<rparr>]"
    by (simp add: acceptRequest_def requestDb_def sampleRequest_def saveRequest_def preSave_def)
  from expired_request_cannot_be_accepted[OF h1 h2 h3 h4, of "\<lambda>u. True"]
  have f1: "fst (acceptRequest (\<lambda>u. True) ?d 2 0 100) = BadRequest ''Request has expired''"
    and f2: "\<forall>se u t. acceptRequest se (snd (acceptRequest (\<lambda>u. True) ?d 2 0 100)) u 0 t
           = (NotFound ''Request not found or already processed'',
              snd (acceptRequest (\<lambda>u. True) ?d 2 0 100))"
    unfolding Let_def r by blast+
  have a: "acceptRequest (\<lambda>u. True) ?d 2 0 100
             = (BadRequest ''Request has expired'', requestDb [?r\<lparr>req_status := Expired\<rparr>])"
    using f1 s by (metis prod.collapse)
  have b: "fst (acceptRequest (\<lambda>u. True) (requestDb [?r\<lparr>req_status := Expired\<rparr>]) 2 0 101)
             = NotFound ''Request not found or already processed''"
    using f2[unfolded s] by (metis fst_conv)
  from a b show ?thesis by (intro conjI)
qed

section \<open>The initiator's counter under every handler\<close>

lemma find_map_same_id:
  "find (\<lambda>c. conv_id c = k) (map (\<lambda>x. if conv_id x = conv_id c' then c' else x) xs)
     = (if k = conv_id c' then map_option (\<lambda>x. c') (find (\<lambda>c. conv_id c = k) xs)
        else find (\<lambda>c. conv_id c = k) xs)"
  by (induction xs) auto


lemma storedConversation_saveConversation:
  "storedConversation (saveConversation c' d) k =
     (if k = conv_id c' \<and> storedConversation d k \<noteq> None then Some c'
      else storedConversation d k)"
  by (cases "find (\<lambda>c. conv_id c = k) (conversations d)")
    (auto simp: storedConversation_def saveConversation_def find_map_same_id)




lemma counterOf_fields [simp]:
  "counterOf (d\<lparr>messages := ms\<rparr>) k = counterOf d k"
  "counterOf (d\<lparr>blocks := bs\<rparr>) k = counterOf d k"
  "counterOf (d\<lparr>requests := rs\<rparr>) k = counterOf d k"
  "counterOf (d\<lparr>nextId := n\<rparr>) k = counterOf d k"
  "counterOf (saveRequest r now d) k = counterOf d k"
  by (simp_all add: counterOf_def storedConversation_def saveRequest_def)


lemma conv_id_methods [simp]:
  "conv_id (updateLastMessage c content s t now) = conv_id c"
  "conv_id (conv_markAsRead c u now) = conv_id c"
  "conv_id (muteForUser c u dur now) = conv_id c"
  "conv_id (unmuteForUser c u) = conv_id c"
  "conv_id (archiveForUser c u now) = conv_id c"
  "conv_id (unarchiveForUser c u) = conv_id c"
  "conv_id (recordMessagePayment c p oi a now) = conv_id c"
  by (simp_all add: updateLastMessage_def conv_markAsRead_def muteForUser_def unmuteForUser_def
      archiveForUser_def unarchiveForUser_def recordMessagePayment_def Let_def
      split: option.splits)

lemma count_methods [simp]:
  "initiatorMessageCount (conv_markAsRead c u now) = initiatorMessageCount c"
  "initiatorMessageCount (muteForUser c u dur now) = initiatorMessageCount c"
  "initiatorMessageCount (unmuteForUser c u) = initiatorMessageCount c"
  "initiatorMessageCount (archiveForUser c u now) = initiatorMessageCount c"
  "initiatorMessageCount (unarchiveForUser c u) = initiatorMessageCount c"
  "initiatorMessageCount (recordMessagePayment c p oi a now) = initiatorMessageCount c"
  by (simp_all add: conv_markAsRead_def muteForUser_def unmuteForUser_def
      archiveForUser_def unarchiveForUser_def recordMessagePayment_def Let_def
      split: option.splits)






















lemma convsWellFormed_save [simp]:
  "convsWellFormed (saveConversation c d) = convsWellFormed d"
proof -
  have "map conv_id (map (\<lambda>x. if conv_id x = conv_id c then c else x) xs) = map conv_id xs" for xs
    by (induction xs) auto
  then have ids: "map conv_id (conversations (saveConversation c d)) = map conv_id (conversations d)"
    by (simp add: saveConversation_def)
  have b: "(\<forall>x \<in> set (conversations d'). conv_id x < n)
             = (\<forall>i \<in> set (map conv_id (conversations d')). i < n)" for d' :: db and n
    by simp
  have nx: "nextId (saveConversation c d) = nextId d"
    by (simp add: saveConversation_def)
  show ?thesis
    unfolding convsWellFormed_def b ids nx ..
qed

lemma convsWellFormed_fields [simp]:
  "convsWellFormed (d\<lparr>messages := ms\<rparr>) = convsWellFormed d"
  "convsWellFormed (d\<lparr>blocks := bs\<rparr>) = convsWellFormed d"
  "convsWellFormed (d\<lparr>requests := rs\<rparr>) = convsWellFormed d"
  "convsWellFormed (saveRequest r now d) = convsWellFormed d"
  by (simp_all add: convsWellFormed_def saveRequest_def)














section \<open>Drawing requests from packs\<close>

lemma useRequests_all:
  "pack_status p = PackActive \<Longrightarrow> useRequests p (requestsRemaining p) = Inr (drained p)"
  by (simp add: useRequests_def drained_def Let_def)

lemma useLoop_drains:
  assumes "\<forall>p \<in> set qs. pack_status p = PackActive \<and> 0 \<le> requestsRemaining p"
    and "sum_list (map requestsRemaining qs) < count"
  shows "useLoop qs count = (None, map drained qs, count - sum_list (map requestsRemaining qs))"
  using assms
proof (induction qs arbitrary: count)
  case Nil
  then show ?case by simp
next
  case (Cons p qs)
  have nonneg: "0 \<le> sum_list (map requestsRemaining qs)"
    using Cons.prems(1) by (intro sum_list_nonneg) auto
  have p: "pack_status p = PackActive" "0 \<le> requestsRemaining p"
    using Cons.prems(1) by auto
  from Cons.prems(2) nonneg p have pos: "0 < count" and le: "requestsRemaining p < count"
    and rest: "sum_list (map requestsRemaining qs) < count - requestsRemaining p"
    by auto
  have ih: "useLoop qs (count - requestsRemaining p)
              = (None, map drained qs,
                 count - requestsRemaining p - sum_list (map requestsRemaining qs))"
    using Cons.prems(1) rest by (intro Cons.IH) auto
  have m: "min count (requestsRemaining p) = requestsRemaining p"
    using le by simp
  show ?case
    using pos by (simp add: m useRequests_all[OF p(1)] ih Let_def)
qed

lemma sum_insort_key:
  "sum_list (map g (insort_key f x xs)) = (g x :: int) + sum_list (map g xs)"
  by (induction xs) auto

lemma sum_sort_key: "sum_list (map g (sort_key f xs)) = (sum_list (map g xs) :: int)"
  by (induction xs) (auto simp: sum_insort_key)

lemma drained_id [simp]: "pack_id (drained p) = pack_id p"
  by (simp add: drained_def)

lemma find_drained:
  assumes "distinct (map pack_id ps)" and "p \<in> set ps" and "set qs \<subseteq> set ps"
  shows "find (\<lambda>q. pack_id q = pack_id p) (map drained qs)
           = (if p \<in> set qs then Some (drained p) else None)"
  using assms(3)
proof (induction qs)
  case Nil
  then show ?case by simp
next
  case (Cons q qs)
  have q: "q \<in> set ps" using Cons.prems by simp
  have eq: "pack_id q = pack_id p \<longleftrightarrow> q = p"
    using assms(1,2) q by (meson distinct_map inj_onD)
  from Cons show ?case
    by (auto simp: eq)
qed

text \<open>
  C10. \<open>useFromPacks\<close> is not atomic on failure. When the packs of a user that are
  active and not expired hold some requests, but fewer than the count asked for, the loop
  takes every remaining request of every such pack, in the order of their expiry, marking
  each pack exhausted; only then does the call throw "Not enough purchased requests".
  The collection is left with all those packs drained, and the user's balance, which was
  positive, is zero. (Pack ids are distinct and no pack holds a negative number of
  requests, as the store guarantees.)
\<close>

theorem useFromPacks_failure_drains_packs:
  assumes ids: "distinct (map pack_id ps)"
    and nonneg: "\<forall>p \<in> set ps. 0 \<le> requestsRemaining p"
    and some: "0 < getTotalRemainingRequests ps userId now"
    and short: "getTotalRemainingRequests ps userId now < count"
  shows "sorted (map pack_expiresAt (getActivePacks ps userId now))
         \<and> useLoop (getActivePacks ps userId now) count
             = (None, map drained (getActivePacks ps userId now),
                count - getTotalRemainingRequests ps userId now)
         \<and> fst (useFromPacks ps userId count now) = Inl NotEnoughPurchased
         \<and> snd (useFromPacks ps userId count now)
             = map (\<lambda>p. if pack_user p = userId \<and> pack_status p = PackActive
                              \<and> pack_expiresAt p > now
                           then drained p else p) ps
         \<and> getTotalRemainingRequests (snd (useFromPacks ps userId count now)) userId now = 0
         \<and> getTotalRemainingRequests (snd (useFromPacks ps userId count now)) userId now
             \<noteq> getTotalRemainingRequests ps userId now"
proof -
  let ?F = "\<lambda>p. pack_user p = userId \<and> pack_status p = PackActive \<and> pack_expiresAt p > now"
  let ?qs = "getActivePacks ps userId now"
  have set_qs: "set ?qs = {p \<in> set ps. ?F p}"
    by (auto simp: getActivePacks_def)
  have total: "sum_list (map requestsRemaining ?qs) = getTotalRemainingRequests ps userId now"
    by (simp add: getActivePacks_def getTotalRemainingRequests_def sum_sort_key)
  have "\<forall>p \<in> set ?qs. pack_status p = PackActive \<and> 0 \<le> requestsRemaining p"
    using nonneg set_qs by auto
  then have loop: "useLoop ?qs count
      = (None, map drained ?qs, count - getTotalRemainingRequests ps userId now)"
    using short unfolding total[symmetric] by (rule useLoop_drains)
  have saved: "savePacks (map drained ?qs) ps = map (\<lambda>p. if ?F p then drained p else p) ps"
    unfolding savePacks_def
  proof (rule map_cong[OF refl])
    fix p assume p: "p \<in> set ps"
    have "find (\<lambda>q. pack_id q = pack_id p) (map drained ?qs)
            = (if p \<in> set ?qs then Some (drained p) else None)"
      using ids p by (rule find_drained) (auto simp: set_qs)
    then show "(case find (\<lambda>q. pack_id q = pack_id p) (map drained ?qs) of
                  Some q \<Rightarrow> q | None \<Rightarrow> p) = (if ?F p then drained p else p)"
      using p by (simp add: set_qs)
  qed
  have res: "useFromPacks ps userId count now
               = (Inl NotEnoughPurchased, map (\<lambda>p. if ?F p then drained p else p) ps)"
    using short by (simp add: useFromPacks_def loop saved)
  have st: "pack_status (drained p) = PackExhausted" for p
    by (simp add: drained_def)
  have "\<not> ?F (if ?F p then drained p else p)" for p
    by (cases "?F p") (simp_all add: st)
  then have "filter ?F (map (\<lambda>p. if ?F p then drained p else p) ps) = []"
    unfolding filter_empty_conv by (metis (no_types, lifting) imageE list.set_map)
  then have zero: "getTotalRemainingRequests (map (\<lambda>p. if ?F p then drained p else p) ps) userId now = 0"
    by (simp add: getTotalRemainingRequests_def)
  have srt: "sorted (map pack_expiresAt ?qs)"
    by (simp add: getActivePacks_def)
  show ?thesis
    using srt loop res zero some by simp
qed

theorem useFromPacks_failure_drains_packs_witness:
  "getTotalRemainingRequests [samplePack 1 2 200, samplePack 2 1 100] 1 0 = 3
   \<and> fst (useFromPacks [samplePack 1 2 200, samplePack 2 1 100] 1 5 0) = Inl NotEnoughPurchased
   \<and> map requestsRemaining (snd (useFromPacks [samplePack 1 2 200, samplePack 2 1 100] 1 5 0))
       = [0, 0]
   \<and> map pack_status (snd (useFromPacks [samplePack 1 2 200, samplePack 2 1 100] 1 5 0))
       = [PackExhausted, PackExhausted]
   \<and> getTotalRemainingRequests
         (snd (useFromPacks [samplePack 1 2 200, samplePack 2 1 100] 1 5 0)) 1 0 = 0"
proof -
  let ?ps = "[samplePack 1 2 200, samplePack 2 1 100]"
  have t: "getTotalRemainingRequests ?ps 1 0 = 3"
    by (simp add: getTotalRemainingRequests_def samplePack_def)
  have h1: "distinct (map pack_id ?ps)"
    by (simp add: samplePack_def)
  have h2: "\<forall>p \<in> set ?ps. 0 \<le> requestsRemaining p"
    by (simp add: samplePack_def)
  have h3: "0 < getTotalRemainingRequests ?ps 1 0"
    unfolding t by simp
  have h4: "getTotalRemainingRequests ?ps 1 0 < 5"
    unfolding t by simp
  from useFromPacks_failure_drains_packs[OF h1 h2 h3 h4]
  have f: "fst (useFromPacks ?ps 1 5 0) = Inl NotEnoughPurchased"
    and s: "snd (useFromPacks ?ps 1 5 0)
              = map (\<lambda>p. if pack_user p = 1 \<and> pack_status p = PackActive \<and> pack_expiresAt p > 0
                            then drained p else p) ?ps"
    and z: "getTotalRemainingRequests (snd (useFromPacks ?ps 1 5 0)) 1 0 = 0"
    by blast+
  have r: "map requestsRemaining (snd (useFromPacks ?ps 1 5 0)) = [0, 0]"
    unfolding s by (simp add: samplePack_def drained_def)
  have p: "map pack_status (snd (useFromPacks ?ps 1 5 0)) = [PackExhausted, PackExhausted]"
    unfolding s by (simp add: samplePack_def drained_def)
  from t f r p z show ?thesis by (intro conjI)
qed

section \<open>The daily limit of sendRequest\<close>

lemma preferencesRejection_Forbidden:
  "preferencesRejection rp sp = Some x \<Longrightarrow> \<exists>m. x = Forbidden m"
  by (auto simp: preferencesRejection_def Let_def split: option.splits if_splits)

lemma sendRequest_past_guards:
  assumes "senderId \<noteq> recipientId"
    and "users e recipientId = Some recipient" and "accountActive recipient"
    and "profiles e recipientId = Some rp" and "\<not> isBanned rp"
    and "\<not> hasBlockBetween d senderId recipientId"
    and "existsBetweenUsers (requests d) senderId recipientId = None"
  shows "sendRequest e d senderId recipientId msg src anonymous now =
     (if countTodayRequestsBySender (requests d) senderId (localTZA e) now
           \<ge> dailyFreeRequests (cfg e)
      then (TooManyRequests (dailyFreeRequests (cfg e)), d)
      else if anonymous \<and> \<not> allowAnonymousMessages rp
      then (Forbidden ''This user does not accept anonymous messages'', d)
      else (case preferencesRejection rp (profiles e senderId) of
              Some rejection \<Rightarrow> (rejection, d)
            | None \<Rightarrow>
                (case createRequest d (expiryDays e) senderId recipientId msg src anonymous now of
                   None \<Rightarrow> (ServerError ''Error sending request'', d)
                 | Some (r, d1) \<Rightarrow> (Created, d1))))"
  using assms by (simp add: sendRequest_def Let_def)

text \<open>
  C4, as the specification states it, fails, in two ways.

  The day of \<open>sendRequest\<close> starts at the server's local midnight, not at UTC midnight.
  On a server at UTC+5:30, at 20:00 UTC (01:30 local time of the next day), a sender
  with a free allowance of one and no pack, whose one request of the UTC day was created
  at 10:00 UTC, has used up the quota of the specification; for the code the request
  belongs to the local day before (which ended at 18:30 UTC), and \<open>sendRequest\<close>
  creates a second one.

  And \<open>sendRequest\<close> never looks at the purchased packs. On a server at UTC, at 20:00
  UTC, a sender whose one free request of the day is used and who holds an active pack
  with three requests left has not exhausted the quota of the specification, and is
  refused with 429.
\<close>

theorem quota_claim_fails_on_day_boundary_and_for_pack_holder:
  "spec_quotaExhausted (utcStartOfDay 72000000) sampleConfig
       (requestDb [sampleRequest 0 1 3 36000000 640800000]) 1 72000000
   \<and> fst (sendRequest (sampleEnv 19800000)
            (requestDb [sampleRequest 0 1 3 36000000 640800000]) 1 2 ''hi'' Search True
            72000000) = Created
   \<and> startOfDay (fixedOffset 19800000) 72000000 = 66600000
   \<and> getTotalRemainingRequests (packs samplePackHolder) 1 72000000 = 3
   \<and> \<not> spec_quotaExhausted (utcStartOfDay 72000000) sampleConfig samplePackHolder 1 72000000
   \<and> startOfDay (fixedOffset 0) 72000000 = utcStartOfDay 72000000
   \<and> sendRequest (sampleEnv 0) samplePackHolder 1 2 ''hi'' Search True 72000000
       = (TooManyRequests 1, samplePackHolder)"
  by (simp add: spec_quotaExhausted_def sampleConfig_def requestDb_def sampleRequest_def
      samplePackHolder_def samplePack_def
      utcStartOfDay_def msPerDay_def getTotalRemainingRequests_def sendRequest_def sampleEnv_def
      sampleProfile_def hasBlockBetween_def existsBetweenUsers_def isBetween_def
      countTodayRequestsBySender_def startOfDay_def localTime_def utcTime_def fixedOffset_def
      preferencesRejection_def createRequest_def trim_hi preSave_def Let_def)

text \<open>
  C4, amended. \<open>sendRequest\<close>, once the checks that come first let the call through
  (not oneself, an active recipient with a profile that is not banned, no block, no
  active request between the two), rejects with 429 when the daily quota of the sender
  is exhausted, where the quota is the free daily allowance plus the purchased pack
  balance of the sender and the day boundary for counting the sender's requests is
  midnight of the current day in the time zone of the server (the
  \<open>setHours(0, 0, 0, 0)\<close> of \<open>countTodayRequestsBySender\<close>), which is UTC midnight only
  on a server whose offset is zero; and it answers 429 only when the requests of that
  local day have used up the free allowance. For a sender without pack balance the two
  coincide. What \<open>sendRequest\<close> answers to a sender whose free allowance is used and
  who holds a pack with requests left is not part of the statement.
\<close>

theorem daily_quota_counts_from_local_midnight:
  assumes "senderId \<noteq> recipientId"
    and "users e recipientId = Some recipient" and "accountActive recipient"
    and "profiles e recipientId = Some rp" and "\<not> isBanned rp"
    and "\<not> hasBlockBetween d senderId recipientId"
    and "existsBetweenUsers (requests d) senderId recipientId = None"
  shows "(spec_quotaExhausted (startOfDay (localTZA e) now) (cfg e) d senderId now
          \<longrightarrow> fst (sendRequest e d senderId recipientId msg src anonymous now)
                = TooManyRequests (dailyFreeRequests (cfg e)))
         \<and> (fst (sendRequest e d senderId recipientId msg src anonymous now)
               = TooManyRequests (dailyFreeRequests (cfg e))
             \<longrightarrow> int (length (filter (\<lambda>r. req_sender r = senderId
                                            \<and> req_createdAt r \<ge> startOfDay (localTZA e) now)
                                      (requests d)))
                   \<ge> dailyFreeRequests (cfg e))"
proof -
  note eq = sendRequest_past_guards[OF assms, of msg src anonymous now]
  have cnt: "int (length (filter (\<lambda>r. req_sender r = senderId
                                        \<and> req_createdAt r \<ge> startOfDay (localTZA e) now)
                                  (requests d)))
               = countTodayRequestsBySender (requests d) senderId (localTZA e) now"
    by (simp add: countTodayRequestsBySender_def)
  show ?thesis
  proof (cases "countTodayRequestsBySender (requests d) senderId (localTZA e) now
                  \<ge> dailyFreeRequests (cfg e)")
    case True
    then show ?thesis
      unfolding cnt by (simp add: eq)
  next
    case False
    then have n: "fst (sendRequest e d senderId recipientId msg src anonymous now)
                    \<noteq> TooManyRequests (dailyFreeRequests (cfg e))"
      by (auto simp: eq split: option.splits dest: preferencesRejection_Forbidden)
    from False have "\<not> spec_quotaExhausted (startOfDay (localTZA e) now) (cfg e) d senderId now"
      by (simp add: spec_quotaExhausted_def countTodayRequestsBySender_def)
    with n show ?thesis
      by blast
  qed
qed

text \<open>
  On the server in New York, on 8 March 2026 at 12:00 UTC (08:00 local time, four hours
  behind UTC), the local day began at 05:00 UTC, when the zone was still five hours
  behind: a request created at 05:30 UTC uses up the allowance of one, a request created
  at 04:30 UTC belongs to the day before.
\<close>

theorem daily_quota_counts_from_local_midnight_witness:
  "startOfDay newYork2026 1772971200000 = 1772946000000
   \<and> spec_quotaExhausted (startOfDay newYork2026 1772971200000) sampleConfig
        (requestDb [sampleRequest 0 1 3 1772947800000 1773552600000]) 1 1772971200000
   \<and> fst (sendRequest sampleEnvNewYork
            (requestDb [sampleRequest 0 1 3 1772947800000 1773552600000]) 1 2
            ''hi'' Search True 1772971200000) = TooManyRequests 1
   \<and> fst (sendRequest sampleEnvNewYork
            (requestDb [sampleRequest 0 1 3 1772944200000 1773549000000]) 1 2
            ''hi'' Search True 1772971200000) \<noteq> TooManyRequests 1"
proof -
  let ?d1 = "requestDb [sampleRequest 0 1 3 1772947800000 1773552600000]"
  let ?d2 = "requestDb [sampleRequest 0 1 3 1772944200000 1773549000000]"
  have h1: "(1::nat) \<noteq> 2" by simp
  have h2: "users sampleEnvNewYork 2 = Some \<lparr>accountActive = True\<rparr>"
    by (simp add: sampleEnvNewYork_def)
  have h3: "accountActive \<lparr>accountActive = True\<rparr>" by simp
  have h4: "profiles sampleEnvNewYork 2 = Some sampleProfile"
    by (simp add: sampleEnvNewYork_def)
  have h5: "\<not> isBanned sampleProfile"
    by (simp add: sampleProfile_def)
  have h6: "\<not> hasBlockBetween (requestDb rs) 1 2" for rs
    by (simp add: hasBlockBetween_def requestDb_def)
  have h7: "existsBetweenUsers (requests (requestDb [sampleRequest 0 1 3 c x])) 1 2 = None"
    for c x
    by (simp add: existsBetweenUsers_def requestDb_def sampleRequest_def isBetween_def)
  have l: "dailyFreeRequests (cfg sampleEnvNewYork) = 1" "cfg sampleEnvNewYork = sampleConfig"
    "localTZA sampleEnvNewYork = newYork2026"
    by (simp_all add: sampleEnvNewYork_def sampleConfig_def)
  have s: "startOfDay newYork2026 1772971200000 = 1772946000000"
    by (simp add: startOfDay_def localTime_def utcTime_def newYork2026_def msPerDay_def)
  have q: "spec_quotaExhausted (startOfDay newYork2026 1772971200000) sampleConfig ?d1 1
             1772971200000"
    unfolding s
    by (simp add: spec_quotaExhausted_def sampleConfig_def requestDb_def sampleRequest_def
        getTotalRemainingRequests_def)
  from daily_quota_counts_from_local_midnight[OF h1 h2 h3 h4 h5 h6 h7,
         where now = 1772971200000 and msg = "''hi''" and src = Search and anonymous = True
           and x1 = 1773552600000 and c1 = 1772947800000] q
  have a: "fst (sendRequest sampleEnvNewYork ?d1 1 2 ''hi'' Search True 1772971200000)
             = TooManyRequests 1"
    unfolding l by (simp add: sampleConfig_def)
  from daily_quota_counts_from_local_midnight[OF h1 h2 h3 h4 h5 h6 h7,
         where now = 1772971200000 and msg = "''hi''" and src = Search and anonymous = True
           and x1 = 1773549000000 and c1 = 1772944200000]
  have b: "fst (sendRequest sampleEnvNewYork ?d2 1 2 ''hi'' Search True 1772971200000)
             \<noteq> TooManyRequests 1"
    unfolding l s
    by (simp add: requestDb_def sampleRequest_def sampleConfig_def)
  from s q a b show ?thesis by (intro conjI)
qed

section \<open>The payment gate on the two send paths\<close>

text \<open>
  C2 on the code: with a free limit of 100 and no paid cycle, the 101st send of the
  unrevealed initiator is refused by the REST handler \<open>sendMessage\<close> with the 402
  payload (current count 100, allowed messages 100) and nothing is written; the same
  send through the socket handler \<open>send_message\<close> is accepted: the message is written
  and the initiator's counter becomes 101.
\<close>

theorem rest_send_rejected_socket_send_accepted:
  "sendMessage sampleConfig (sampleDb 100 0) 1 10 ''hi'' Text None 0
     = (PaymentRequired
          \<lparr>pr_reason = ''message_limit_reached'', pr_priceInPaisa = 200,
           pr_priceDisplay = defaultPriceDisplay, pr_freeMessageLimit = 100,
           pr_currentCount = 100, pr_paidCycles = 0, pr_allowedMessages = 100,
           pr_conversationId = 10\<rparr>, sampleDb 100 0)
   \<and> fst (send_message (sampleDb 100 0) 1 10 ''hi'' Text None 0) = NewMessage 20
   \<and> map msg_id (messages (snd (send_message (sampleDb 100 0) 1 10 ''hi'' Text None 0))) = [20]
   \<and> map initiatorMessageCount
         (conversations (snd (send_message (sampleDb 100 0) 1 10 ''hi'' Text None 0))) = [101]"
  by (simp add: sendMessage_def send_message_def sampleDb_def sampleConversation_def
      sampleConfig_def defaultUnrevealedPayment_def findActiveConversation_def isParticipant_def
      newParticipant_def getOtherParticipant_def getParticipantData_def hasBlockBetween_def
      orDefault_def orZero_def defaultPriceDisplay_def createMessage_def newMessage_def
      trim_hi updateLastMessage_def saveConversation_def Let_def)

section \<open>Applying a payment twice\<close>

text \<open>
  C1 on the code: \<open>verifyMessagePayment\<close> called twice with the same order, payment id
  and signature, on a payment the provider reports captured, records the payment twice;
  \<open>initiatorPaidCycles\<close> goes from 0 to 2.
\<close>

theorem repeated_payment_counts_twice:
  "fst (verifyMessagePayment sampleConfig sampleProvider (sampleDb 100 0) 1 10
          ''order_1'' ''pay_1'' ''sig'' 0) = PaymentApplied 1 (Some 100) 100
   \<and> fst (verifyMessagePayment sampleConfig sampleProvider
            (snd (verifyMessagePayment sampleConfig sampleProvider (sampleDb 100 0) 1 10
                    ''order_1'' ''pay_1'' ''sig'' 0))
            1 10 ''order_1'' ''pay_1'' ''sig'' 1) = PaymentApplied 2 (Some 200) 100
   \<and> map initiatorPaidCycles
         (conversations
            (snd (verifyMessagePayment sampleConfig sampleProvider
                    (snd (verifyMessagePayment sampleConfig sampleProvider (sampleDb 100 0) 1 10
                            ''order_1'' ''pay_1'' ''sig'' 0))
                    1 10 ''order_1'' ''pay_1'' ''sig'' 1))) = [2]"
  by (simp add: verifyMessagePayment_def sampleDb_def sampleConversation_def
      sampleConfig_def sampleProvider_def defaultUnrevealedPayment_def
      findActiveConversation_def isParticipant_def newParticipant_def
      recordMessagePayment_def getInitiatorMessageStats_def
      orDefault_def orZero_def saveConversation_def Let_def)

section \<open>The delivery status of a message\<close>

text \<open>
  A status never goes back on the path sent, delivered, read: each acknowledgement
  leaves the rank of a message that is on the path or raises it.
\<close>

lemma markAsRead_forward:
  "statusRank (deliveryStatus m) = Some k \<Longrightarrow>
   \<exists>k'. statusRank (deliveryStatus (markAsRead m now)) = Some k' \<and> k \<le> k'"
  by (cases "deliveryStatus m") (auto simp: markAsRead_def)

lemma markAsDelivered_forward:
  "statusRank (deliveryStatus m) = Some k \<Longrightarrow>
   \<exists>k'. statusRank (deliveryStatus (markAsDelivered m now)) = Some k' \<and> k \<le> k'"
  by (cases "deliveryStatus m") (auto simp: markAsDelivered_def)

lemma batch_forward:
  assumes "i < length ms" and "statusRank (deliveryStatus (ms ! i)) = Some k"
  shows "\<exists>k'. statusRank (deliveryStatus (mark_read ms userId messageIds now ! i)) = Some k'
              \<and> k \<le> k'"
    and "\<exists>k'. statusRank (deliveryStatus (mark_delivered ms userId messageIds now ! i)) = Some k'
              \<and> k \<le> k'"
    and "\<exists>k'. statusRank (deliveryStatus (markAllAsRead ms conversationId userId now ! i))
                = Some k' \<and> k \<le> k'"
  using assms
  by (cases "deliveryStatus (ms ! i)";
      auto simp: mark_read_def mark_delivered_def markAllAsRead_def)+

text \<open>
  C9 on the code: the batched \<open>mark_read\<close> is applied to every listed message of the
  recipient, also to one that is already read: its \<open>readAt\<close> is written again.
  \<open>markAllAsRead\<close> and \<open>markAsRead\<close> leave such a message as it is.
\<close>

theorem mark_read_rewrites_read_message:
  "\<not> belowStatus sampleReadMessage Read
   \<and> mark_read [sampleReadMessage] 2 [7] 9 = [sampleReadMessage\<lparr>readAt := Some 9\<rparr>]
   \<and> mark_read [sampleReadMessage] 2 [7] 9 \<noteq> [sampleReadMessage]
   \<and> markAllAsRead [sampleReadMessage] 10 2 9 = [sampleReadMessage]
   \<and> markAsRead sampleReadMessage 9 = sampleReadMessage"
  by (simp add: belowStatus_def mark_read_def markAllAsRead_def markAsRead_def
      sampleReadMessage_def)

end
